theory Spec2Isabelle
  imports Main "HOL-Library.Sublist"
begin

section \<open>Values, exceptions and the library functions the handler uses\<close>

text \<open>
  The handler of \<^verbatim>\<open>lambda_function.py\<close> works on decoded JSON: the event, the request
  body and the answer of the inference endpoint. \<open>pyval\<close> is the Python value that
  \<^verbatim>\<open>json.loads\<close> can produce, with a dict as an association list in insertion order
  (keys distinct). JSON numbers are Python ints here; floats are not represented.
  A Python character is a HOL \<open>char\<close>.
\<close>

datatype pyval =
    PNone
  | PBool bool
  | PInt int
  | PStr string
  | PList "pyval list"
  | PDict "(string \<times> pyval) list"

text \<open>
  An exception is its class, as far as the \<^verbatim>\<open>except\<close> clauses of the handler tell
  classes apart, and the text \<^verbatim>\<open>str(e)\<close> gives. Every class here is a subclass of
  \<^verbatim>\<open>Exception\<close>.
\<close>

datatype exn_class =
    ClientError | RequestException | JSONDecodeError
  | KeyError | IndexError | AttributeError | TypeError | OtherException

datatype exn = Exn exn_class string

fun exn_class_of :: "exn \<Rightarrow> exn_class" where
  "exn_class_of (Exn c m) = c"

fun exn_str :: "exn \<Rightarrow> string" where
  "exn_str (Exn c m) = m"

text \<open>Python truth value: \<^verbatim>\<open>not x\<close>, \<^verbatim>\<open>if x\<close>, \<^verbatim>\<open>all([...])\<close>.\<close>

fun truthy :: "pyval \<Rightarrow> bool" where
  "truthy PNone = False"
| "truthy (PBool b) = b"
| "truthy (PInt i) = (i \<noteq> 0)"
| "truthy (PStr s) = (s \<noteq> [])"
| "truthy (PList xs) = (xs \<noteq> [])"
| "truthy (PDict kvs) = (kvs \<noteq> [])"

text \<open>Truth value of an optional string (\<^verbatim>\<open>None\<close> or a \<^verbatim>\<open>str\<close>).\<close>

fun truthy_str :: "string option \<Rightarrow> bool" where
  "truthy_str None = False"
| "truthy_str (Some s) = (s \<noteq> [])"

fun type_name :: "pyval \<Rightarrow> string" where
  "type_name PNone = ''NoneType''"
| "type_name (PBool b) = ''bool''"
| "type_name (PInt i) = ''int''"
| "type_name (PStr s) = ''str''"
| "type_name (PList xs) = ''list''"
| "type_name (PDict kvs) = ''dict''"

definition quoted :: "string \<Rightarrow> string" where
  "quoted s = [CHR 0x27] @ s @ [CHR 0x27]"

definition no_attribute :: "pyval \<Rightarrow> string \<Rightarrow> exn" where
  "no_attribute x a =
     Exn AttributeError (quoted (type_name x) @ '' object has no attribute '' @ quoted a)"

text \<open>\<^verbatim>\<open>x.get(key, default)\<close>: only a dict has the method.\<close>

definition py_get :: "pyval \<Rightarrow> string \<Rightarrow> pyval \<Rightarrow> exn + pyval" where
  "py_get x key dflt =
     (case x of
        PDict kvs \<Rightarrow> Inr (case map_of kvs key of None \<Rightarrow> dflt | Some v \<Rightarrow> v)
      | _ \<Rightarrow> Inl (no_attribute x ''get''))"

text \<open>\<^verbatim>\<open>sep.join(xs)\<close> on a list of strings.\<close>

fun join_str :: "string \<Rightarrow> string list \<Rightarrow> string" where
  "join_str sep [] = []"
| "join_str sep [x] = x"
| "join_str sep (x # y # ys) = x @ sep @ join_str sep (y # ys)"

text \<open>Decimal digits of an int, as \<^verbatim>\<open>str\<close> and an f-string print it.\<close>

fun str_nat :: "nat \<Rightarrow> string" where
  "str_nat n =
     (if n < 10 then [char_of (48 + n)]
      else str_nat (n div 10) @ [char_of (48 + n mod 10)])"

declare str_nat.simps [simp del]

definition str_int :: "int \<Rightarrow> string" where
  "str_int i = (if i < 0 then ''-'' @ str_nat (nat (- i)) else str_nat (nat i))"

text \<open>
  \<^verbatim>\<open>s.replace(old, new)\<close>: left to right, occurrences that do not overlap; an empty
  \<open>old\<close> matches before every character and at the end.
\<close>

function replace_from :: "string \<Rightarrow> string \<Rightarrow> string \<Rightarrow> string" where
  "replace_from old new [] = []"
| "replace_from old new (c # cs) =
     (if old \<noteq> [] \<and> prefix old (c # cs)
      then new @ replace_from old new (drop (length old) (c # cs))
      else c # replace_from old new cs)"
  by pat_completeness auto
termination
  by (relation "measure (\<lambda>(old, new, s). length s)") (auto simp: neq_Nil_conv)

definition py_replace :: "string \<Rightarrow> string \<Rightarrow> string \<Rightarrow> string" where
  "py_replace s old new =
     (if old = [] then new @ concat (map (\<lambda>c. c # new) s) else replace_from old new s)"

text \<open>
  \<^verbatim>\<open>s.strip()\<close>: the characters for which \<^verbatim>\<open>str.isspace\<close> holds, among the first
  256 code points.
\<close>

definition isspace :: "char \<Rightarrow> bool" where
  "isspace c =
     (let n = (of_char c :: nat)
      in (9 \<le> n \<and> n \<le> 13) \<or> (28 \<le> n \<and> n \<le> 32) \<or> n = 133 \<or> n = 160)"

definition py_strip :: "string \<Rightarrow> string" where
  "py_strip s = rev (dropWhile isspace (rev (dropWhile isspace s)))"

text \<open>
  \<^verbatim>\<open>json.dumps\<close> with its default settings (\<^verbatim>\<open>ensure_ascii\<close>, separators
  \<^verbatim>\<open>", "\<close> and \<^verbatim>\<open>": "\<close>).
\<close>

definition hex_digit :: "nat \<Rightarrow> char" where
  "hex_digit n = (if n < 10 then char_of (48 + n) else char_of (87 + n))"

definition escape_char :: "char \<Rightarrow> string" where
  "escape_char c =
     (let n = (of_char c :: nat)
      in if n = 34 then [CHR 0x5C, CHR 0x22]
         else if n = 92 then [CHR 0x5C, CHR 0x5C]
         else if n = 10 then [CHR 0x5C, CHR ''n'']
         else if n = 13 then [CHR 0x5C, CHR ''r'']
         else if n = 9 then [CHR 0x5C, CHR ''t'']
         else if n = 8 then [CHR 0x5C, CHR ''b'']
         else if n = 12 then [CHR 0x5C, CHR ''f'']
         else if 32 \<le> n \<and> n \<le> 126 then [c]
         else [CHR 0x5C, CHR ''u'', CHR ''0'', CHR ''0'',
               hex_digit (n div 16), hex_digit (n mod 16)])"

definition encode_str :: "string \<Rightarrow> string" where
  "encode_str s = [CHR 0x22] @ concat (map escape_char s) @ [CHR 0x22]"

fun json_dumps :: "pyval \<Rightarrow> string" where
  "json_dumps PNone = ''null''"
| "json_dumps (PBool b) = (if b then ''true'' else ''false'')"
| "json_dumps (PInt i) = str_int i"
| "json_dumps (PStr s) = encode_str s"
| "json_dumps (PList xs) = ''['' @ join_str '', '' (map json_dumps xs) @ '']''"
| "json_dumps (PDict kvs) =
     ''{'' @ join_str '', '' (map (\<lambda>kv. encode_str (fst kv) @ '': '' @ json_dumps (snd kv)) kvs)
       @ ''}''"

section \<open>Responses\<close>

text \<open>
  The dict the handler returns: \<^verbatim>\<open>statusCode\<close>, \<^verbatim>\<open>headers\<close> and \<^verbatim>\<open>body\<close>,
  the body being the text \<^verbatim>\<open>json.dumps\<close> makes. Lines 14 to 26.
\<close>

record response =
  statusCode :: int
  headers :: "(string \<times> string) list"
  body :: string

definition create_error_response :: "int \<Rightarrow> string \<Rightarrow> string option \<Rightarrow> response" where
  "create_error_response status_code error_message error_details =
     \<lparr>statusCode = status_code,
      headers = [(''Content-Type'', ''application/json''),
                 (''Access-Control-Allow-Origin'', ''*'')],
      body = json_dumps (PDict
        [(''error'', PStr error_message),
         (''details'', PStr (if truthy_str error_details then the error_details
                             else error_message))])\<rparr>"

section \<open>The services the handler calls\<close>

text \<open>
  What the services return is input of the model. The shapes are those of the AWS and
  \<^verbatim>\<open>requests\<close> clients: a key the handler reads with \<^verbatim>\<open>[...]\<close> or
  \<^verbatim>\<open>.get\<close> is an optional field.
\<close>

record block =
  BlockType :: "string option"
  Text :: "string option"

record detection =
  JobStatus :: "string option"
  StatusMessage :: "string option"
  Blocks :: "block list option"
  NextToken :: "string option"

record start_response =
  JobId :: "string option"

record http_response =
  status_code :: int
  resp_text :: string
  resp_json :: "exn + pyval"

text \<open>
  \<open>resp_text\<close> is \<^verbatim>\<open>api_response.text\<close> and \<open>resp_json\<close> what
  \<^verbatim>\<open>api_response.json()\<close> returns or raises.

  A call either raises (\<open>Inl\<close>, or \<open>Some\<close> for a call whose result is not used) or
  returns. \<open>get_document_text_detection env n job_id token\<close> is the answer to the call
  made after \<open>n\<close> earlier calls of that operation in the same run, so that the job can
  change state between two polls. \<open>json_loads\<close>, \<open>b64decode\<close> and \<open>py_repr\<close>
  (\<^verbatim>\<open>str\<close> of a list or dict) are the library's functions, \<open>uuid4\<close> the identifier
  drawn for this run.
\<close>

record env =
  json_loads :: "string \<Rightarrow> exn + pyval"
  py_repr :: "pyval \<Rightarrow> string"
  uuid4 :: string
  b64decode :: "pyval \<Rightarrow> exn + string"
  boto3_client :: "string \<Rightarrow> exn option"
  put_object :: "string \<Rightarrow> string \<Rightarrow> string \<Rightarrow> exn option"
  start_document_text_detection :: "string \<Rightarrow> string \<Rightarrow> exn + start_response"
  get_document_text_detection :: "nat \<Rightarrow> string \<Rightarrow> string option \<Rightarrow> exn + detection"
  requests_post :: "string \<Rightarrow> string \<Rightarrow> exn + http_response"
  delete_object :: "string \<Rightarrow> string \<Rightarrow> exn option"

text \<open>What a run does to the outside, in order.\<close>

datatype log_level = INFO | ERROR

datatype effect =
    Log log_level string
  | Boto3Client string
  | PutObject string string string
  | StartDocumentTextDetection string string
  | GetDocumentTextDetection string "string option"
  | Sleep nat
  | RequestsPost string string
  | DeleteObject string string

type_synonym trace = "effect list"

text \<open>
  How a block of statements ends when it does not run to its end: a \<^verbatim>\<open>return\<close>, an
  exception, or a loop that is still running when the fuel is used up. A block that can
  also run to its end has a result in \<open>flow + 'a\<close>.
\<close>

datatype flow = Return response | Raise exn | Diverge

definition emit :: "trace \<Rightarrow> 'a \<times> trace \<Rightarrow> 'a \<times> trace" where
  "emit tr x = (fst x, tr @ snd x)"

section \<open>The handler\<close>

definition bucket_name :: string where
  "bucket_name = ''awshugb''"

definition max_retries :: nat where
  "max_retries = 12"

definition api_url :: string where
  "api_url = ''Model_URL''"

definition max_context_length :: nat where
  "max_context_length = 2000"

text \<open>\<^verbatim>\<open>json.loads(x)\<close>: a \<^verbatim>\<open>TypeError\<close> unless \<open>x\<close> is a string.\<close>

definition py_json_loads :: "env \<Rightarrow> pyval \<Rightarrow> exn + pyval" where
  "py_json_loads env x =
     (case x of
        PStr s \<Rightarrow> json_loads env s
      | _ \<Rightarrow> Inl (Exn TypeError
               (''the JSON object must be str, bytes or bytearray, not '' @ type_name x)))"

text \<open>A value inside an f-string.\<close>

definition format_value :: "env \<Rightarrow> pyval \<Rightarrow> string" where
  "format_value env v =
     (case v of
        PStr s \<Rightarrow> s
      | PInt i \<Rightarrow> str_int i
      | PBool b \<Rightarrow> (if b then ''True'' else ''False'')
      | PNone \<Rightarrow> ''None''
      | _ \<Rightarrow> py_repr env v)"

text \<open>Step 1, lines 34 to 37.\<close>

definition parse_body :: "env \<Rightarrow> pyval \<Rightarrow> flow + pyval" where
  "parse_body env event =
     (case py_get event ''body'' (PStr ''{}'') of
        Inl e \<Rightarrow> Inl (Raise e)
      | Inr raw \<Rightarrow>
          (case py_json_loads env raw of
             Inl e \<Rightarrow>
               if exn_class_of e = JSONDecodeError
               then Inl (Return (create_error_response 400 ''Invalid JSON in request body'' None))
               else Inl (Raise e)
           | Inr body_v \<Rightarrow> Inr body_v))"

text \<open>Step 2, lines 41 to 48.\<close>

definition validate :: "pyval \<Rightarrow> flow + pyval \<times> pyval" where
  "validate body_v =
     (case py_get body_v ''pdf_base64'' PNone of
        Inl e \<Rightarrow> Inl (Raise e)
      | Inr pdf_base64 \<Rightarrow>
          (case py_get body_v ''question'' PNone of
             Inl e \<Rightarrow> Inl (Raise e)
           | Inr question \<Rightarrow>
               if \<not> (truthy pdf_base64 \<and> truthy question)
               then
                 let missing_params =
                       (if \<not> truthy pdf_base64 then [''pdf_base64''] else []) @
                       (if \<not> truthy question then [''question''] else [])
                 in Inl (Return (create_error_response 400
                      (''Missing required parameters: '' @ join_str '', '' missing_params) None))
               else Inr (pdf_base64, question)))"

text \<open>Step 4, lines 54 to 60: only a \<^verbatim>\<open>ClientError\<close> is caught here.\<close>

definition upload_except :: "exn \<Rightarrow> flow" where
  "upload_except e =
     (if exn_class_of e = ClientError
      then Return (create_error_response 500 (''S3 upload error: '' @ exn_str e) None)
      else Raise e)"

definition upload :: "env \<Rightarrow> string \<Rightarrow> pyval \<Rightarrow> (flow + unit) \<times> trace" where
  "upload env pdf_key pdf_base64 =
     (case boto3_client env ''s3'' of
        Some e \<Rightarrow> (Inl (Raise e), [Boto3Client ''s3''])
      | None \<Rightarrow>
          emit [Boto3Client ''s3'']
            (case b64decode env pdf_base64 of
               Inl e \<Rightarrow> (Inl (upload_except e), [])
             | Inr pdf_data \<Rightarrow>
                 (case put_object env bucket_name pdf_key pdf_data of
                    Some e \<Rightarrow> (Inl (upload_except e), [PutObject bucket_name pdf_key pdf_data])
                  | None \<Rightarrow>
                      (Inr (), [PutObject bucket_name pdf_key pdf_data,
                                Log INFO ''Successfully uploaded PDF to S3'']))))"

text \<open>Lines 93 to 95: the texts of the \<^verbatim>\<open>LINE\<close> blocks of one page, in block order.\<close>

definition line_texts :: "detection \<Rightarrow> string list" where
  "line_texts response =
     map (\<lambda>block. case Text block of None \<Rightarrow> [] | Some t \<Rightarrow> t)
       (filter (\<lambda>block. BlockType block = Some ''LINE'')
          (case Blocks response of None \<Rightarrow> [] | Some bs \<Rightarrow> bs))"

text \<open>
  Lines 84 to 99, the \<^verbatim>\<open>while True\<close> loop. One unit of fuel is one iteration;
  \<open>calls\<close> counts the calls of \<^verbatim>\<open>get_document_text_detection\<close> made so far.
\<close>

fun paginate ::
  "nat \<Rightarrow> env \<Rightarrow> string \<Rightarrow> detection \<Rightarrow> nat \<Rightarrow> string option \<Rightarrow> string list
     \<Rightarrow> (flow + string list) \<times> trace" where
  "paginate 0 env job_id job_status calls next_token pages_text = (Inl Diverge, [])"
| "paginate (Suc fuel) env job_id job_status calls next_token pages_text =
     (case (if truthy_str next_token
            then (get_document_text_detection env calls job_id next_token,
                  [GetDocumentTextDetection job_id next_token], Suc calls)
            else (Inr job_status, [], calls)) of
        (Inl e, tr, calls') \<Rightarrow> (Inl (Raise e), tr)
      | (Inr response, tr, calls') \<Rightarrow>
          (if \<not> truthy_str (NextToken response)
           then (Inr (pages_text @ line_texts response), tr)
           else emit tr (paginate fuel env job_id job_status calls' (NextToken response)
                           (pages_text @ line_texts response))))"

text \<open>
  Lines 74 to 109, the \<^verbatim>\<open>for attempt in range(max_retries)\<close> loop over the attempts
  that are left. The result is the variable \<^verbatim>\<open>text\<close> when the loop is left by
  \<^verbatim>\<open>break\<close> or runs out of attempts.
\<close>

fun poll_attempts :: "nat \<Rightarrow> env \<Rightarrow> string \<Rightarrow> nat list \<Rightarrow> (flow + string) \<times> trace" where
  "poll_attempts fuel env job_id [] = (Inr [], [])"
| "poll_attempts fuel env job_id (attempt # rest) =
     (case get_document_text_detection env attempt job_id None of
        Inl e \<Rightarrow> (Inl (Raise e), [GetDocumentTextDetection job_id None])
      | Inr job_status \<Rightarrow>
          (case JobStatus job_status of
             None \<Rightarrow> (Inl (Raise (Exn KeyError (quoted ''JobStatus''))),
                       [GetDocumentTextDetection job_id None])
           | Some status \<Rightarrow>
               emit [GetDocumentTextDetection job_id None,
                     Log INFO (''Textract job status: '' @ status @ '' (attempt '' @
                               str_int (int attempt + 1) @ '')'')]
                 (if status = ''SUCCEEDED'' then
                    (case paginate fuel env job_id job_status (Suc attempt) None [] of
                       (Inl fl, tr) \<Rightarrow> (Inl fl, tr)
                     | (Inr pages_text, tr) \<Rightarrow>
                         (Inr (join_str '' '' pages_text),
                          tr @ [Log INFO (''Extracted text length: '' @
                                  str_int (int (length (join_str '' '' pages_text))))]))
                  else if status = ''FAILED'' then
                    (Inl (Return (create_error_response 500 ''Textract processing failed''
                       (Some (case StatusMessage job_status of
                                None \<Rightarrow> ''No error details available''
                              | Some m \<Rightarrow> m)))), [])
                  else emit [Sleep 5] (poll_attempts fuel env job_id rest))))"

text \<open>Line 128.\<close>

definition build_prompt :: "string \<Rightarrow> string \<Rightarrow> string" where
  "build_prompt text_chunk question_str =
     ''Provide a detailed answer to the following question based on the context. '' @
     ''Only respond with the answer, without any additional questions.'' @
     ''\<newline>\<newline>Context: '' @ text_chunk @
     ''\<newline>\<newline>Question: '' @ question_str @
     ''\<newline>\<newline>Answer:''"

text \<open>Lines 151 to 154.\<close>

definition extract_answer :: "pyval \<Rightarrow> exn + pyval" where
  "extract_answer response_data =
     (case response_data of
        PList xs \<Rightarrow>
          (case xs of
             [] \<Rightarrow> Inl (Exn IndexError ''list index out of range'')
           | x # _ \<Rightarrow> py_get x ''generated_text'' (PStr ''No answer found''))
      | _ \<Rightarrow> py_get response_data ''generated_text'' (PStr ''No answer found''))"

text \<open>Line 157: \<^verbatim>\<open>replace\<close> is a method of strings only.\<close>

definition clean_answer :: "pyval \<Rightarrow> string \<Rightarrow> exn + string" where
  "clean_answer answer prompt =
     (case answer of
        PStr s \<Rightarrow> Inr (py_strip (py_replace s prompt []))
      | _ \<Rightarrow> Inl (no_attribute answer ''replace''))"

text \<open>Lines 160 to 164: only a \<^verbatim>\<open>ClientError\<close> is caught and logged.\<close>

definition delete_pdf :: "env \<Rightarrow> string \<Rightarrow> (flow + unit) \<times> trace" where
  "delete_pdf env pdf_key =
     (case delete_object env bucket_name pdf_key of
        None \<Rightarrow>
          (Inr (), [DeleteObject bucket_name pdf_key,
                    Log INFO (''Deleted PDF from S3: '' @ pdf_key)])
      | Some e \<Rightarrow>
          if exn_class_of e = ClientError
          then (Inr (), [DeleteObject bucket_name pdf_key,
                         Log ERROR (''Error deleting PDF from S3: '' @ exn_str e)])
          else (Inl (Raise e), [DeleteObject bucket_name pdf_key]))"

text \<open>Lines 167 to 178.\<close>

definition success_response :: "pyval \<Rightarrow> string \<Rightarrow> string \<Rightarrow> response" where
  "success_response question answer text =
     \<lparr>statusCode = 200,
      headers = [(''Content-Type'', ''application/json''),
                 (''Access-Control-Allow-Origin'', ''*'')],
      body = json_dumps (PDict
        [(''question'', question),
         (''answer'', PStr answer),
         (''textPreview'', PStr (if length text > 200 then take 200 text @ ''...''
                                 else text))])\<rparr>"

text \<open>
  Step 7, the body of the \<^verbatim>\<open>try\<close> of lines 115 to 178. The request always carries
  the same headers, \<^verbatim>\<open>max_length\<close> 500, \<^verbatim>\<open>temperature\<close> 0.7 and a timeout of 30;
  the prompt is what varies.
\<close>

definition inference_body :: "env \<Rightarrow> string \<Rightarrow> pyval \<Rightarrow> string \<Rightarrow> flow \<times> trace" where
  "inference_body env pdf_key question text =
     (let text_chunk = take max_context_length text;
          prompt = build_prompt text_chunk (format_value env question)
      in case requests_post env api_url prompt of
           Inl e \<Rightarrow> (Raise e, [RequestsPost api_url prompt])
         | Inr api_response \<Rightarrow>
             emit [RequestsPost api_url prompt,
                   Log INFO (''HF API Status: '' @ str_int (status_code api_response)),
                   Log INFO (''HF API Response: '' @ resp_text api_response)]
               (if status_code api_response \<noteq> 200
                then (Return (create_error_response 500
                        (''Hugging Face API error: '' @ resp_text api_response) None), [])
                else
                  (case resp_json api_response of
                     Inl e \<Rightarrow> (Raise e, [])
                   | Inr response_data \<Rightarrow>
                       (case extract_answer response_data of
                          Inl e \<Rightarrow> (Raise e, [])
                        | Inr generated \<Rightarrow>
                            (case clean_answer generated prompt of
                               Inl e \<Rightarrow> (Raise e, [])
                             | Inr answer \<Rightarrow>
                                 (case delete_pdf env pdf_key of
                                    (Inl fl, tr) \<Rightarrow> (fl, tr)
                                  | (Inr u, tr) \<Rightarrow>
                                      (Return (success_response question answer text), tr)))))))"

text \<open>The same with the \<^verbatim>\<open>except requests.exceptions.RequestException\<close> of line 180.\<close>

definition inference_stage :: "env \<Rightarrow> string \<Rightarrow> pyval \<Rightarrow> string \<Rightarrow> flow \<times> trace" where
  "inference_stage env pdf_key question text =
     (case inference_body env pdf_key question text of
        (Raise e, tr) \<Rightarrow>
          if exn_class_of e = RequestException
          then (Return (create_error_response 500
                  (''Error calling Hugging Face API: '' @ exn_str e) None), tr)
          else (Raise e, tr)
      | other \<Rightarrow> other)"

text \<open>Steps 5 to 7, the body of the \<^verbatim>\<open>try\<close> of lines 63 to 181.\<close>

definition textract_body :: "nat \<Rightarrow> env \<Rightarrow> string \<Rightarrow> pyval \<Rightarrow> flow \<times> trace" where
  "textract_body fuel env pdf_key question =
     (case boto3_client env ''textract'' of
        Some e \<Rightarrow> (Raise e, [Boto3Client ''textract''])
      | None \<Rightarrow>
          (case start_document_text_detection env bucket_name pdf_key of
             Inl e \<Rightarrow> (Raise e, [Boto3Client ''textract'',
                                   StartDocumentTextDetection bucket_name pdf_key])
           | Inr start_resp \<Rightarrow>
               (case JobId start_resp of
                  None \<Rightarrow> (Raise (Exn KeyError (quoted ''JobId'')),
                            [Boto3Client ''textract'',
                             StartDocumentTextDetection bucket_name pdf_key])
                | Some job_id \<Rightarrow>
                    emit [Boto3Client ''textract'',
                          StartDocumentTextDetection bucket_name pdf_key,
                          Log INFO (''Started Textract job: '' @ job_id)]
                      (case poll_attempts fuel env job_id [0..<max_retries] of
                         (Inl fl, tr) \<Rightarrow> (fl, tr)
                       | (Inr text, tr) \<Rightarrow>
                           emit tr
                             (if text = []
                              then (Return (create_error_response 500
                                      ''Textract processing timeout'' None), [])
                              else inference_stage env pdf_key question text)))))"

text \<open>The same with the \<^verbatim>\<open>except Exception\<close> of line 183.\<close>

definition textract_stage :: "nat \<Rightarrow> env \<Rightarrow> string \<Rightarrow> pyval \<Rightarrow> flow \<times> trace" where
  "textract_stage fuel env pdf_key question =
     (case textract_body fuel env pdf_key question of
        (Raise e, tr) \<Rightarrow>
          (Return (create_error_response 500
             (''Textract processing error: '' @ exn_str e) None), tr)
      | other \<Rightarrow> other)"

text \<open>The body of the outer \<^verbatim>\<open>try\<close>, lines 30 to 184.\<close>

definition handler_body :: "nat \<Rightarrow> env \<Rightarrow> pyval \<Rightarrow> flow \<times> trace" where
  "handler_body fuel env event =
     emit [Log INFO (''Incoming event: '' @ json_dumps event)]
       (case parse_body env event of
          Inl fl \<Rightarrow> (fl, [])
        | Inr body_v \<Rightarrow>
            (case validate body_v of
               Inl fl \<Rightarrow> (fl, [])
             | Inr (pdf_base64, question) \<Rightarrow>
                 (let pdf_key = ''uploads/'' @ uuid4 env @ ''.pdf''
                  in case upload env pdf_key pdf_base64 of
                       (Inl fl, tr) \<Rightarrow> (fl, tr)
                     | (Inr u, tr) \<Rightarrow>
                         emit tr (textract_stage fuel env pdf_key question))))"

text \<open>
  \<^verbatim>\<open>lambda_handler\<close>, with the \<^verbatim>\<open>except Exception\<close> of line 186. The result is the
  response, or \<open>None\<close> when the fuel did not suffice for the pagination loop, and what the
  run did until then.
\<close>

definition lambda_handler :: "nat \<Rightarrow> env \<Rightarrow> pyval \<Rightarrow> response option \<times> trace" where
  "lambda_handler fuel env event =
     (case handler_body fuel env event of
        (Return r, tr) \<Rightarrow> (Some r, tr)
      | (Raise e, tr) \<Rightarrow>
          (Some (create_error_response 500 (''Unexpected error: '' @ exn_str e) None),
           tr @ [Log ERROR (''Unexpected error: '' @ exn_str e)])
      | (Diverge, tr) \<Rightarrow> (None, tr))"

section \<open>Notions the properties are stated with\<close>

text \<open>The headers every response is to carry, and the body of an error response.\<close>

definition json_cors_headers :: "(string \<times> string) list" where
  "json_cors_headers =
     [(''Content-Type'', ''application/json''), (''Access-Control-Allow-Origin'', ''*'')]"

definition error_envelope :: "string \<Rightarrow> string \<Rightarrow> string" where
  "error_envelope m d = json_dumps (PDict [(''error'', PStr m), (''details'', PStr d)])"

text \<open>
  A response has the uniform shape when it carries the two headers and, unless its status
  is 200, its body is the envelope, the details being the message itself or, for a failed
  job, a text of their own.
\<close>

definition uniform_response :: "response \<Rightarrow> bool" where
  "uniform_response r \<longleftrightarrow>
     headers r = json_cors_headers \<and>
     (statusCode r = 200 \<or>
      (\<exists>m d. body r = error_envelope m d \<and>
         (d = m \<or> (m = ''Textract processing failed'' \<and> d \<noteq> []))))"

text \<open>
  The value of a field of the request body (\<^verbatim>\<open>None\<close> when the key is absent), and the
  message that names the fields whose value is absent or empty, \<^verbatim>\<open>pdf_base64\<close> first.
\<close>

definition field_of :: "(string \<times> pyval) list \<Rightarrow> string \<Rightarrow> pyval" where
  "field_of kvs key = (case map_of kvs key of None \<Rightarrow> PNone | Some v \<Rightarrow> v)"

definition missing_message :: "pyval \<Rightarrow> pyval \<Rightarrow> string" where
  "missing_message pdf_base64 question =
     (if \<not> truthy pdf_base64 \<and> \<not> truthy question
      then ''Missing required parameters: pdf_base64, question''
      else if \<not> truthy pdf_base64 then ''Missing required parameters: pdf_base64''
      else ''Missing required parameters: question'')"

text \<open>
  The key under which the document of a run is stored, and the condition that a run gets
  as far as the polling loop: the body parses, both fields are there, the upload and the
  start of the job succeed. \<open>question\<close> is the question of the request, \<open>job_id\<close> the
  job that was started and \<open>tr\<close> what the run has done by then.
\<close>

definition pdf_key_of :: "env \<Rightarrow> string" where
  "pdf_key_of env = ''uploads/'' @ uuid4 env @ ''.pdf''"

definition polling_starts :: "env \<Rightarrow> pyval \<Rightarrow> pyval \<Rightarrow> string \<Rightarrow> trace \<Rightarrow> bool" where
  "polling_starts env event question job_id tr \<longleftrightarrow>
     (case parse_body env event of
        Inl fl \<Rightarrow> False
      | Inr body_v \<Rightarrow>
          (case validate body_v of
             Inl fl \<Rightarrow> False
           | Inr (pdf_base64, q) \<Rightarrow>
               q = question \<and>
               (case upload env (pdf_key_of env) pdf_base64 of
                  (Inl fl, tr_up) \<Rightarrow> False
                | (Inr u, tr_up) \<Rightarrow>
                    boto3_client env ''textract'' = None \<and>
                    (case start_document_text_detection env bucket_name (pdf_key_of env) of
                       Inl e \<Rightarrow> False
                     | Inr start_resp \<Rightarrow>
                         JobId start_resp = Some job_id \<and>
                         tr = [Log INFO (''Incoming event: '' @ json_dumps event)] @ tr_up @
                              [Boto3Client ''textract'',
                               StartDocumentTextDetection bucket_name (pdf_key_of env),
                               Log INFO (''Started Textract job: '' @ job_id)]))))"

text \<open>
  What the handler does with the outcome of the polling loop (lines 111 to 184), and how a
  \<^verbatim>\<open>try\<close> whose handler turns every exception into a 500 response ends.
\<close>

definition after_polling :: "env \<Rightarrow> pyval \<Rightarrow> (flow + string) \<times> trace \<Rightarrow> flow \<times> trace" where
  "after_polling env question polled =
     (case polled of
        (Inl fl, tr) \<Rightarrow> (fl, tr)
      | (Inr t, tr) \<Rightarrow>
          emit tr (if t = []
                   then (Return (create_error_response 500 ''Textract processing timeout'' None), [])
                   else inference_stage env (pdf_key_of env) question t))"

definition reported :: "string \<Rightarrow> flow \<times> trace \<Rightarrow> response option \<times> trace" where
  "reported label x =
     (case x of
        (Return r, tr) \<Rightarrow> (Some r, tr)
      | (Raise e, tr) \<Rightarrow> (Some (create_error_response 500 (label @ exn_str e) None), tr)
      | (Diverge, tr) \<Rightarrow> (None, tr))"

text \<open>
  An attempt at which the job is neither \<^verbatim>\<open>SUCCEEDED\<close> nor \<^verbatim>\<open>FAILED\<close>, the
  status it reports, and what a sequence of such attempts does: a poll, its log line and
  a sleep of 5 for each.
\<close>

definition running_at :: "env \<Rightarrow> string \<Rightarrow> nat \<Rightarrow> bool" where
  "running_at env job_id attempt \<longleftrightarrow>
     (case get_document_text_detection env attempt job_id None of
        Inl e \<Rightarrow> False
      | Inr job_status \<Rightarrow>
          (case JobStatus job_status of
             None \<Rightarrow> False
           | Some status \<Rightarrow> status \<noteq> ''SUCCEEDED'' \<and> status \<noteq> ''FAILED''))"

definition status_at :: "env \<Rightarrow> string \<Rightarrow> nat \<Rightarrow> string" where
  "status_at env job_id attempt =
     (case get_document_text_detection env attempt job_id None of
        Inl e \<Rightarrow> []
      | Inr job_status \<Rightarrow> (case JobStatus job_status of None \<Rightarrow> [] | Some status \<Rightarrow> status))"

definition poll_log :: "string \<Rightarrow> nat \<Rightarrow> effect" where
  "poll_log status attempt =
     Log INFO (''Textract job status: '' @ status @ '' (attempt '' @
               str_int (int attempt + 1) @ '')'')"

definition running_trace :: "env \<Rightarrow> string \<Rightarrow> nat list \<Rightarrow> trace" where
  "running_trace env job_id attempts =
     concat (map (\<lambda>a. [GetDocumentTextDetection job_id None,
                         poll_log (status_at env job_id a) a, Sleep 5]) attempts)"

text \<open>
  The pages that follow a page: each is fetched with the token of the one before, until a
  page carries no token. \<open>calls\<close> is the number of earlier calls of
  \<^verbatim>\<open>get_document_text_detection\<close>. \<open>fetch_trace\<close> are the fetches this takes and
  \<open>extracted_text\<close> the text of the \<^verbatim>\<open>LINE\<close> blocks of the pages, page after page,
  joined with single spaces.
\<close>

fun page_chain :: "env \<Rightarrow> string \<Rightarrow> nat \<Rightarrow> detection \<Rightarrow> detection list \<Rightarrow> bool" where
  "page_chain env job_id calls page [] \<longleftrightarrow> \<not> truthy_str (NextToken page)"
| "page_chain env job_id calls page (p # ps) \<longleftrightarrow>
     truthy_str (NextToken page) \<and>
     get_document_text_detection env calls job_id (NextToken page) = Inr p \<and>
     page_chain env job_id (Suc calls) p ps"

definition fetch_trace :: "string \<Rightarrow> detection list \<Rightarrow> trace" where
  "fetch_trace job_id pages =
     map (\<lambda>p. GetDocumentTextDetection job_id (NextToken p)) (butlast pages)"

definition extracted_text :: "detection list \<Rightarrow> string" where
  "extracted_text pages = join_str '' '' (concat (map line_texts pages))"

text \<open>
  The job succeeds at the poll that follows \<open>n\<close> polls that found it running: \<open>first\<close>
  is the page that poll returns, \<open>rest\<close> the pages fetched after it.
\<close>

definition succeeds_after ::
  "env \<Rightarrow> string \<Rightarrow> nat \<Rightarrow> detection \<Rightarrow> detection list \<Rightarrow> bool" where
  "succeeds_after env job_id n first rest \<longleftrightarrow>
     n < max_retries \<and>
     list_all (running_at env job_id) [0..<n] \<and>
     get_document_text_detection env n job_id None = Inr first \<and>
     JobStatus first = Some ''SUCCEEDED'' \<and>
     page_chain env job_id (Suc n) first rest"

definition text_log :: "string \<Rightarrow> effect" where
  "text_log t = Log INFO (''Extracted text length: '' @ str_int (int (length t)))"

text \<open>Kinds of effects: a status poll is a call without a token.\<close>

fun is_poll :: "effect \<Rightarrow> bool" where
  "is_poll (GetDocumentTextDetection job_id None) = True"
| "is_poll e = False"

fun is_get :: "effect \<Rightarrow> bool" where
  "is_get (GetDocumentTextDetection job_id token) = True"
| "is_get e = False"

fun is_poll_or_sleep :: "effect \<Rightarrow> bool" where
  "is_poll_or_sleep (GetDocumentTextDetection job_id None) = True"
| "is_poll_or_sleep (Sleep n) = True"
| "is_poll_or_sleep e = False"

fun is_inference_call :: "effect \<Rightarrow> bool" where
  "is_inference_call (RequestsPost url prompt) = True"
| "is_inference_call e = False"

fun is_setup :: "effect \<Rightarrow> bool" where
  "is_setup (Log level m) = True"
| "is_setup (Boto3Client name) = True"
| "is_setup (PutObject bucket key data) = True"
| "is_setup (StartDocumentTextDetection bucket key) = True"
| "is_setup e = False"

text \<open>
  The details of the response for a failed job, from the optional status message of the
  service.
\<close>

definition failure_details :: "string option \<Rightarrow> string" where
  "failure_details status_message =
     (case status_message of
        None \<Rightarrow> ''No error details available''
      | Some m \<Rightarrow> if m = [] then ''Textract processing failed'' else m)"

text \<open>
  The prompt the inference endpoint is called with, what the call and its two log lines
  add to the trace, and the answer as the specification describes it: the candidate is
  the first element of a sequence and the response itself otherwise, its generated text is
  the field \<^verbatim>\<open>generated_text\<close> or a placeholder.
\<close>

definition prompt_of :: "env \<Rightarrow> pyval \<Rightarrow> string \<Rightarrow> string" where
  "prompt_of env question t =
     build_prompt (take max_context_length t) (format_value env question)"

definition answer_candidate :: "pyval \<Rightarrow> pyval option" where
  "answer_candidate response_data =
     (case response_data of
        PList xs \<Rightarrow> (case xs of [] \<Rightarrow> None | x # rest \<Rightarrow> Some x)
      | v \<Rightarrow> Some v)"

definition generated_text_field :: "(string \<times> pyval) list \<Rightarrow> pyval" where
  "generated_text_field kvs =
     (case map_of kvs ''generated_text'' of None \<Rightarrow> PStr ''No answer found'' | Some v \<Rightarrow> v)"

definition inference_log :: "string \<Rightarrow> http_response \<Rightarrow> trace" where
  "inference_log prompt api_response =
     [RequestsPost api_url prompt,
      Log INFO (''HF API Status: '' @ str_int (status_code api_response)),
      Log INFO (''HF API Response: '' @ resp_text api_response)]"

text \<open>
  The deletion of the stored document does not stop the run: it succeeds or raises a
  \<^verbatim>\<open>ClientError\<close>. The line a failed deletion is logged with.
\<close>

definition deletion_contained :: "env \<Rightarrow> string \<Rightarrow> bool" where
  "deletion_contained env pdf_key \<longleftrightarrow>
     (case delete_object env bucket_name pdf_key of
        None \<Rightarrow> True
      | Some e \<Rightarrow> exn_class_of e = ClientError)"

definition delete_failure_log :: "exn \<Rightarrow> effect" where
  "delete_failure_log e = Log ERROR (''Error deleting PDF from S3: '' @ exn_str e)"

text \<open>
  The OCR service hands out no continuation token from its \<open>N\<close>-th answer on, so that
  every pagination ends.
\<close>

definition pagination_bounded :: "env \<Rightarrow> nat \<Rightarrow> bool" where
  "pagination_bounded env N \<longleftrightarrow>
     (\<forall>c job_id token response.
        N \<le> c \<and> get_document_text_detection env c job_id token = Inr response \<longrightarrow>
        \<not> truthy_str (NextToken response))"

section \<open>Example runs\<close>

text \<open>
  An environment in which every service answers: the request texts it can parse, a
  document store that accepts, a job \<^verbatim>\<open>job-1\<close> whose answers are the parameter
  \<open>ocr\<close>, an inference endpoint that echoes the prompt before its answer.
\<close>

definition demo_request :: string where
  \<open>demo_request = ''{"pdf_base64": "JVBERg==", "question": "Why?"}''\<close>

definition event_with_body :: "string \<Rightarrow> pyval" where
  "event_with_body s = PDict [(''body'', PStr s)]"

definition demo_loads :: "string \<Rightarrow> exn + pyval" where
  \<open>demo_loads s =
     (if s = demo_request
      then Inr (PDict [(''pdf_base64'', PStr ''JVBERg==''), (''question'', PStr ''Why?'')])
      else if s = ''{"question": "Why?"}'' then Inr (PDict [(''question'', PStr ''Why?'')])
      else if s = ''{}'' then Inr (PDict [])
      else if s = ''[]'' then Inr (PList [])
      else Inl (Exn JSONDecodeError ''Expecting value: line 1 column 1 (char 0)''))\<close>

definition demo_page :: "string \<Rightarrow> string list \<Rightarrow> string option \<Rightarrow> detection" where
  "demo_page status lines token =
     \<lparr>JobStatus = Some status, StatusMessage = None,
      Blocks = Some (\<lparr>BlockType = Some ''PAGE'', Text = None\<rparr> #
                     map (\<lambda>l. \<lparr>BlockType = Some ''LINE'', Text = Some l\<rparr>) lines),
      NextToken = token\<rparr>"

definition demo_reply :: "string \<Rightarrow> http_response" where
  "demo_reply prompt =
     \<lparr>status_code = 200, resp_text = ''[...]'',
      resp_json = Inr (PList [PDict [(''generated_text'', PStr (prompt @ '' Because. ''))]])\<rparr>"

definition demo_env :: "(nat \<Rightarrow> string \<Rightarrow> string option \<Rightarrow> exn + detection) \<Rightarrow> env" where
  "demo_env ocr =
     \<lparr>json_loads = demo_loads,
      py_repr = (\<lambda>v. ''[...]''),
      uuid4 = ''3f2b8c1e-0d4a-4c6e-9b1a-7e5d2f0a6c11'',
      b64decode = (\<lambda>v. Inr ''%PDF''),
      boto3_client = (\<lambda>name. None),
      put_object = (\<lambda>bucket key data. None),
      start_document_text_detection = (\<lambda>bucket name. Inr \<lparr>JobId = Some ''job-1''\<rparr>),
      get_document_text_detection = ocr,
      requests_post = (\<lambda>url prompt. Inr (demo_reply prompt)),
      delete_object = (\<lambda>bucket key. None)\<rparr>"

definition ocr_running :: "nat \<Rightarrow> string \<Rightarrow> string option \<Rightarrow> exn + detection" where
  "ocr_running n job_id token = Inr (demo_page ''IN_PROGRESS'' [] None)"

definition demo_event :: pyval where
  "demo_event = event_with_body demo_request"

text \<open>What a run on \<open>demo_event\<close> has done when the polling starts.\<close>

definition demo_prefix :: trace where
  "demo_prefix =
     [Log INFO (''Incoming event: '' @ json_dumps demo_event),
      Boto3Client ''s3'',
      PutObject ''awshugb'' ''uploads/3f2b8c1e-0d4a-4c6e-9b1a-7e5d2f0a6c11.pdf'' ''%PDF'',
      Log INFO ''Successfully uploaded PDF to S3'',
      Boto3Client ''textract'',
      StartDocumentTextDetection ''awshugb'' ''uploads/3f2b8c1e-0d4a-4c6e-9b1a-7e5d2f0a6c11.pdf'',
      Log INFO ''Started Textract job: job-1'']"

text \<open>
  Behaviours of the job: success at the third poll with a second page behind a token,
  success at once with no line at all, failure at the second poll with a given status
  message.
\<close>

definition ocr_two_pages :: "nat \<Rightarrow> string \<Rightarrow> string option \<Rightarrow> exn + detection" where
  "ocr_two_pages n job_id token =
     (if n < 2 then Inr (demo_page ''IN_PROGRESS'' [] None)
      else if n = 2 then Inr (demo_page ''SUCCEEDED'' [''Alpha'', ''Beta''] (Some ''t1''))
      else Inr (demo_page ''SUCCEEDED'' [''Gamma''] None))"

definition ocr_blank :: "nat \<Rightarrow> string \<Rightarrow> string option \<Rightarrow> exn + detection" where
  "ocr_blank n job_id token = Inr (demo_page ''SUCCEEDED'' [] None)"

definition failed_status :: "string option \<Rightarrow> detection" where
  "failed_status status_message =
     \<lparr>JobStatus = Some ''FAILED'', StatusMessage = status_message, Blocks = None,
      NextToken = None\<rparr>"

definition ocr_failed :: "string option \<Rightarrow> nat \<Rightarrow> string \<Rightarrow> string option \<Rightarrow> exn + detection" where
  "ocr_failed status_message n job_id token =
     (if n < 1 then Inr (demo_page ''IN_PROGRESS'' [] None)
      else Inr (failed_status status_message))"

text \<open>
  The text and the prompt of the run on two pages, a reply of the endpoint that is an
  empty sequence, and two ways for the deletion to fail.
\<close>

definition demo_text :: string where
  "demo_text = ''Alpha Beta Gamma''"

definition demo_prompt :: string where
  "demo_prompt = build_prompt demo_text ''Why?''"

definition empty_reply :: http_response where
  "empty_reply = \<lparr>status_code = 200, resp_text = ''[]'', resp_json = Inr (PList [])\<rparr>"

definition access_denied :: exn where
  "access_denied = Exn ClientError
     (''An error occurred (AccessDenied) when calling the DeleteObject operation: '' @
      ''Access Denied'')"

definition connect_timeout :: exn where
  "connect_timeout = Exn OtherException ''Connect timeout on endpoint URL''"

text \<open>
  A job whose every page carries a continuation token, and a 200 reply whose body is not
  JSON: \<^verbatim>\<open>json()\<close> raises \<^verbatim>\<open>requests.exceptions.JSONDecodeError\<close>, which since
  version 2.27 of \<^verbatim>\<open>requests\<close> is a \<^verbatim>\<open>RequestException\<close>.
\<close>

definition ocr_endless :: "nat \<Rightarrow> string \<Rightarrow> string option \<Rightarrow> exn + detection" where
  "ocr_endless n job_id token = Inr (demo_page ''SUCCEEDED'' [''More''] (Some ''next''))"

definition unparseable_reply :: http_response where
  "unparseable_reply =
     \<lparr>status_code = 200, resp_text = ''<html>Bad Gateway</html>'',
      resp_json = Inl (Exn RequestException ''Expecting value: line 1 column 1 (char 0)'')\<rparr>"

section \<open>Properties\<close>

subsection \<open>Traces\<close>

lemma emit_pair [simp]: "emit tr (x, tr') = (x, tr @ tr')"
  by (simp add: emit_def)

lemma fst_emit [simp]: "fst (emit tr x) = fst x"
  by (simp add: emit_def)

lemma snd_emit [simp]: "snd (emit tr x) = tr @ snd x"
  by (simp add: emit_def)

subsection \<open>Validation of the request\<close>

lemma validate_missing:
  assumes "\<not> truthy (field_of kvs ''pdf_base64'') \<or> \<not> truthy (field_of kvs ''question'')"
  shows "validate (PDict kvs) =
     Inl (Return (create_error_response 400
       (missing_message (field_of kvs ''pdf_base64'') (field_of kvs ''question'')) None))"
  using assms by (auto simp: validate_def py_get_def field_of_def missing_message_def)

lemma parse_demo_body:
  "parse_body (demo_env ocr) (event_with_body s) =
     (case demo_loads s of
        Inl e \<Rightarrow> Inl (Return (create_error_response 400 ''Invalid JSON in request body'' None))
      | Inr b \<Rightarrow> Inr b)"
  by (simp add: parse_body_def py_get_def event_with_body_def py_json_loads_def demo_env_def
      demo_loads_def split: sum.splits)

text \<open>
  C5, as amended: when the body parses to a JSON object in which \<^verbatim>\<open>pdf_base64\<close>,
  \<^verbatim>\<open>question\<close> or both are absent or empty, the handler answers 400 with a message
  that names exactly those fields, \<^verbatim>\<open>pdf_base64\<close> first, and the run consists of the
  log line for the event alone: no call of the object store, the OCR service or the
  inference endpoint.
\<close>

theorem missing_fields_rejected:
  assumes "parse_body env event = Inr (PDict kvs)"
    and "\<not> truthy (field_of kvs ''pdf_base64'') \<or> \<not> truthy (field_of kvs ''question'')"
  shows "lambda_handler fuel env event =
     (Some (create_error_response 400
        (missing_message (field_of kvs ''pdf_base64'') (field_of kvs ''question'')) None),
      [Log INFO (''Incoming event: '' @ json_dumps event)])"
  using assms(1) validate_missing [OF assms(2)]
  by (simp add: lambda_handler_def handler_body_def)

theorem missing_fields_rejected_witness:
  \<open>parse_body (demo_env ocr_running) (event_with_body ''{"question": "Why?"}'') =
     Inr (PDict [(''question'', PStr ''Why?'')]) \<and>
   \<not> truthy (field_of [(''question'', PStr ''Why?'')] ''pdf_base64'') \<and>
   lambda_handler 0 (demo_env ocr_running) (event_with_body ''{"question": "Why?"}'') =
     (Some (create_error_response 400 ''Missing required parameters: pdf_base64'' None),
      [Log INFO (''Incoming event: '' @
         json_dumps (event_with_body ''{"question": "Why?"}''))])\<close>
proof -
  have p: \<open>parse_body (demo_env ocr_running) (event_with_body ''{"question": "Why?"}'') =
      Inr (PDict [(''question'', PStr ''Why?'')])\<close>
    by (simp add: parse_demo_body demo_loads_def demo_request_def)
  have m: "\<not> truthy (field_of [(''question'', PStr ''Why?'')] ''pdf_base64'')"
    by (simp add: field_of_def)
  from m have m': "\<not> truthy (field_of [(''question'', PStr ''Why?'')] ''pdf_base64'') \<or>
      \<not> truthy (field_of [(''question'', PStr ''Why?'')] ''question'')"
    by simp
  have q: "truthy (field_of [(''question'', PStr ''Why?'')] ''question'')"
    by (simp add: field_of_def)
  from missing_fields_rejected [OF p m', of 0] p m q show ?thesis
    by (simp add: missing_message_def)
qed

text \<open>
  C5 as it is stated fails for a body that parses to JSON which is not an object: the
  body \<^verbatim>\<open>[]\<close> parses, has neither field, and is answered with status 500.
\<close>

theorem missing_fields_counterexample:
  "parse_body (demo_env ocr_running) (event_with_body ''[]'') = Inr (PList []) \<and>
   lambda_handler 0 (demo_env ocr_running) (event_with_body ''[]'') =
     (Some (create_error_response 500
        (''Unexpected error: '' @ exn_str (no_attribute (PList []) ''get'')) None),
      [Log INFO (''Incoming event: '' @ json_dumps (event_with_body ''[]'')),
       Log ERROR (''Unexpected error: '' @ exn_str (no_attribute (PList []) ''get''))]) \<and>
   statusCode (create_error_response 500
        (''Unexpected error: '' @ exn_str (no_attribute (PList []) ''get'')) None) \<noteq> 400"
proof -
  have p: "parse_body (demo_env ocr_running) (event_with_body ''[]'') = Inr (PList [])"
    by (simp add: parse_demo_body demo_loads_def demo_request_def)
  have v: "validate (PList []) = Inl (Raise (no_attribute (PList []) ''get''))"
    by (simp add: validate_def py_get_def)
  from p v show ?thesis
    by (simp add: lambda_handler_def handler_body_def create_error_response_def)
qed

subsection \<open>The shape of responses\<close>

lemma statusCode_error [simp]: "statusCode (create_error_response sc m d) = sc"
  by (simp add: create_error_response_def)

lemma headers_error [simp]: "headers (create_error_response sc m d) = json_cors_headers"
  by (simp add: create_error_response_def json_cors_headers_def)

lemma body_error:
  "body (create_error_response sc m d) =
     error_envelope m (if truthy_str d then the d else m)"
  by (simp add: create_error_response_def error_envelope_def)

lemma uniform_error_plain: "uniform_response (create_error_response sc m None)"
proof -
  have "body (create_error_response sc m None) = error_envelope m m"
    by (simp add: body_error)
  then show ?thesis
    unfolding uniform_response_def by auto
qed

lemma uniform_error_failed:
  "uniform_response (create_error_response 500 ''Textract processing failed'' (Some d))"
proof (cases "d = []")
  case True
  then have "body (create_error_response 500 ''Textract processing failed'' (Some d)) =
      error_envelope ''Textract processing failed'' ''Textract processing failed''"
    by (simp add: body_error)
  then show ?thesis
    unfolding uniform_response_def by auto
next
  case False
  then have "body (create_error_response 500 ''Textract processing failed'' (Some d)) =
      error_envelope ''Textract processing failed'' d"
    by (simp add: body_error)
  with False show ?thesis
    unfolding uniform_response_def by auto
qed

lemma uniform_success: "uniform_response (success_response q a t)"
  unfolding uniform_response_def success_response_def json_cors_headers_def
  by simp

lemma parse_body_uniform: "parse_body env event = Inl (Return r) \<Longrightarrow> uniform_response r"
  by (auto simp: parse_body_def uniform_error_plain split: sum.splits if_splits)

lemma validate_uniform: "validate b = Inl (Return r) \<Longrightarrow> uniform_response r"
  by (auto simp: validate_def Let_def uniform_error_plain split: sum.splits if_splits)

lemma upload_uniform: "fst (upload env k p) = Inl (Return r) \<Longrightarrow> uniform_response r"
  by (auto simp: upload_def upload_except_def uniform_error_plain
      split: sum.splits if_splits option.splits)

lemma paginate_no_return: "fst (paginate fuel env j js c tok acc) \<noteq> Inl (Return r)"
proof (induction fuel arbitrary: c tok acc)
  case 0
  then show ?case by simp
next
  case (Suc fuel)
  show ?case
  proof (cases "truthy_str tok")
    case True
    then show ?thesis using Suc.IH
      by (auto split: sum.splits)
  next
    case False
    then show ?thesis using Suc.IH
      by (auto split: sum.splits)
  qed
qed

lemma poll_attempts_uniform:
  "fst (poll_attempts fuel env j as) = Inl (Return r) \<Longrightarrow> uniform_response r"
proof (induction as)
  case Nil
  then show ?case by simp
next
  case (Cons a as)
  show ?case
  proof (cases "get_document_text_detection env a j None")
    case (Inl e)
    with Cons.prems show ?thesis by simp
  next
    case (Inr js)
    show ?thesis
    proof (cases "JobStatus js")
      case None
      with Inr Cons.prems show ?thesis by simp
    next
      case (Some st)
      consider "st = ''SUCCEEDED''" | "st \<noteq> ''SUCCEEDED''" "st = ''FAILED''"
        | "st \<noteq> ''SUCCEEDED''" "st \<noteq> ''FAILED''" by blast
      then show ?thesis
      proof cases
        case 1
        with Inr Some Cons.prems paginate_no_return [of fuel env j js "Suc a" None "[]" r]
        show ?thesis by (simp split: prod.splits sum.splits)
      next
        case 2
        with Inr Some Cons.prems show ?thesis
          by (auto simp: uniform_error_failed)
      next
        case 3
        with Inr Some Cons.prems have "fst (poll_attempts fuel env j as) = Inl (Return r)"
          by simp
        then show ?thesis by (rule Cons.IH)
      qed
    qed
  qed
qed

lemma inference_body_uniform:
  "fst (inference_body env k q t) = Return r \<Longrightarrow> uniform_response r"
  by (auto simp: inference_body_def Let_def delete_pdf_def uniform_error_plain uniform_success
      split: sum.splits if_splits option.splits prod.splits)

lemma inference_stage_uniform:
  assumes "fst (inference_stage env k q t) = Return r"
  shows "uniform_response r"
proof -
  obtain fl tr where b: "inference_body env k q t = (fl, tr)"
    by (cases "inference_body env k q t")
  show ?thesis
  proof (cases fl)
    case (Return r')
    with b assms have "r' = r" by (simp add: inference_stage_def)
    with b Return inference_body_uniform [of env k q t r] show ?thesis by simp
  next
    case (Raise e)
    with b assms show ?thesis
      by (auto simp: inference_stage_def uniform_error_plain split: if_splits)
  next
    case Diverge
    with b assms show ?thesis by (simp add: inference_stage_def)
  qed
qed

lemma textract_body_uniform:
  assumes "fst (textract_body fuel env k q) = Return r"
  shows "uniform_response r"
proof -
  from assms obtain j where
    p: "fst (case poll_attempts fuel env j [0..<max_retries] of
          (Inl fl, tr) \<Rightarrow> (fl, tr)
        | (Inr text, tr) \<Rightarrow>
            emit tr (if text = []
                     then (Return (create_error_response 500 ''Textract processing timeout'' None), [])
                     else inference_stage env k q text)) = Return r"
    by (auto simp: textract_body_def split: option.splits sum.splits)
  obtain res tr where pa: "poll_attempts fuel env j [0..<max_retries] = (res, tr)"
    by (cases "poll_attempts fuel env j [0..<max_retries]")
  show ?thesis
  proof (cases res)
    case (Inl fl)
    with p pa have "fst (poll_attempts fuel env j [0..<max_retries]) = Inl (Return r)"
      by simp
    then show ?thesis by (rule poll_attempts_uniform)
  next
    case (Inr t)
    show ?thesis
    proof (cases "t = []")
      case True
      with p pa Inr show ?thesis by (auto simp: uniform_error_plain)
    next
      case False
      with p pa Inr have "fst (inference_stage env k q t) = Return r" by simp
      then show ?thesis by (rule inference_stage_uniform)
    qed
  qed
qed

lemma textract_stage_uniform:
  assumes "fst (textract_stage fuel env k q) = Return r"
  shows "uniform_response r"
proof -
  obtain fl tr where b: "textract_body fuel env k q = (fl, tr)"
    by (cases "textract_body fuel env k q")
  show ?thesis
  proof (cases fl)
    case (Return r')
    with b assms have "r' = r" by (simp add: textract_stage_def)
    with b Return textract_body_uniform [of fuel env k q r] show ?thesis by simp
  next
    case (Raise e)
    with b assms show ?thesis
      by (auto simp: textract_stage_def uniform_error_plain)
  next
    case Diverge
    with b assms show ?thesis by (simp add: textract_stage_def)
  qed
qed

lemma handler_body_uniform:
  assumes "fst (handler_body fuel env event) = Return r"
  shows "uniform_response r"
proof (cases "parse_body env event")
  case (Inl fl)
  with assms show ?thesis
    by (auto simp: handler_body_def dest: parse_body_uniform)
next
  case (Inr b)
  show ?thesis
  proof (cases "validate b")
    case (Inl fl)
    with Inr assms show ?thesis
      by (auto simp: handler_body_def dest: validate_uniform)
  next
    case v: (Inr pq)
    obtain p q where pq: "pq = (p, q)" by (cases pq)
    obtain res tr where u: "upload env (''uploads/'' @ uuid4 env @ ''.pdf'') p = (res, tr)"
      by (cases "upload env (''uploads/'' @ uuid4 env @ ''.pdf'') p")
    show ?thesis
    proof (cases res)
      case (Inl fl)
      with Inr v pq u assms have "fst (upload env (''uploads/'' @ uuid4 env @ ''.pdf'') p) = Inl (Return r)"
        by (simp add: handler_body_def)
      then show ?thesis by (rule upload_uniform)
    next
      case r: (Inr x)
      with Inr v pq u assms
      have "fst (textract_stage fuel env (''uploads/'' @ uuid4 env @ ''.pdf'') q) = Return r"
        by (simp add: handler_body_def)
      then show ?thesis by (rule textract_stage_uniform)
    qed
  qed
qed

subsection \<open>From the request to the polling loop\<close>

lemma polling_starts_cases:
  assumes "polling_starts env event question job_id tr"
  obtains body_v pdf_base64 tr_up start_resp where
    "parse_body env event = Inr body_v"
    and "validate body_v = Inr (pdf_base64, question)"
    and "upload env (pdf_key_of env) pdf_base64 = (Inr (), tr_up)"
    and "boto3_client env ''textract'' = None"
    and "start_document_text_detection env bucket_name (pdf_key_of env) = Inr start_resp"
    and "JobId start_resp = Some job_id"
    and "tr = [Log INFO (''Incoming event: '' @ json_dumps event)] @ tr_up @
              [Boto3Client ''textract'',
               StartDocumentTextDetection bucket_name (pdf_key_of env),
               Log INFO (''Started Textract job: '' @ job_id)]"
proof (cases "parse_body env event")
  case (Inl fl)
  with assms show ?thesis by (simp add: polling_starts_def)
next
  case p: (Inr body_v)
  show ?thesis
  proof (cases "validate body_v")
    case (Inl fl)
    with assms p show ?thesis by (simp add: polling_starts_def)
  next
    case v: (Inr pq)
    obtain pdf_base64 q where pq: "pq = (pdf_base64, q)" by (cases pq)
    from assms p v pq have q: "q = question" by (simp add: polling_starts_def)
    obtain res tr_up where u: "upload env (pdf_key_of env) pdf_base64 = (res, tr_up)"
      by (cases "upload env (pdf_key_of env) pdf_base64")
    show ?thesis
    proof (cases res)
      case (Inl fl)
      with assms p v pq u show ?thesis by (simp add: polling_starts_def)
    next
      case r: (Inr x)
      from assms p v pq u r have c: "boto3_client env ''textract'' = None"
        by (simp add: polling_starts_def)
      show ?thesis
      proof (cases "start_document_text_detection env bucket_name (pdf_key_of env)")
        case (Inl e)
        with assms p v pq u r show ?thesis by (simp add: polling_starts_def)
      next
        case s: (Inr start_resp)
        from assms p v pq u r s have "JobId start_resp = Some job_id"
          and "tr = [Log INFO (''Incoming event: '' @ json_dumps event)] @ tr_up @
              [Boto3Client ''textract'',
               StartDocumentTextDetection bucket_name (pdf_key_of env),
               Log INFO (''Started Textract job: '' @ job_id)]"
          by (simp_all add: polling_starts_def)
        with p v pq q u r c s that show ?thesis by simp
      qed
    qed
  qed
qed

lemma handler_from_polling:
  assumes "polling_starts env event question job_id tr"
  shows "lambda_handler fuel env event =
     emit tr (reported ''Textract processing error: ''
       (after_polling env question (poll_attempts fuel env job_id [0..<max_retries])))"
proof -
  from assms obtain body_v pdf_base64 tr_up start_resp where
    p: "parse_body env event = Inr body_v"
    and v: "validate body_v = Inr (pdf_base64, question)"
    and u: "upload env (pdf_key_of env) pdf_base64 = (Inr (), tr_up)"
    and c: "boto3_client env ''textract'' = None"
    and s: "start_document_text_detection env bucket_name (pdf_key_of env) = Inr start_resp"
    and j: "JobId start_resp = Some job_id"
    and t: "tr = [Log INFO (''Incoming event: '' @ json_dumps event)] @ tr_up @
                [Boto3Client ''textract'',
                 StartDocumentTextDetection bucket_name (pdf_key_of env),
                 Log INFO (''Started Textract job: '' @ job_id)]"
    by (rule polling_starts_cases)
  obtain res tr' where pa: "poll_attempts fuel env job_id [0..<max_retries] = (res, tr')"
    by (cases "poll_attempts fuel env job_id [0..<max_retries]")
  obtain fl tr'' where ap: "after_polling env question (res, tr') = (fl, tr'')"
    by (cases "after_polling env question (res, tr')")
  have tb: "textract_body fuel env (pdf_key_of env) question =
      emit [Boto3Client ''textract'',
            StartDocumentTextDetection bucket_name (pdf_key_of env),
            Log INFO (''Started Textract job: '' @ job_id)] (fl, tr'')"
    using c s j pa ap
    by (simp add: textract_body_def after_polling_def split: sum.splits)
  show ?thesis
    using p v u t pa ap tb
    by (cases fl)
      (simp_all add: lambda_handler_def handler_body_def textract_stage_def reported_def
        pdf_key_of_def Let_def)
qed

subsection \<open>The polling loop and the pagination\<close>

lemma poll_attempts_running:
  assumes "list_all (running_at env j) as"
  shows "poll_attempts fuel env j (as @ bs) =
     emit (running_trace env j as) (poll_attempts fuel env j bs)"
  using assms
proof (induction as)
  case Nil
  show ?case by (simp add: running_trace_def emit_def)
next
  case (Cons a as)
  from Cons.prems have r: "running_at env j a" and rest: "list_all (running_at env j) as"
    by simp_all
  from r obtain js st where g: "get_document_text_detection env a j None = Inr js"
    and st: "JobStatus js = Some st" and ns: "st \<noteq> ''SUCCEEDED''" and nf: "st \<noteq> ''FAILED''"
    by (auto simp: running_at_def split: sum.splits option.splits)
  from g st have sa: "status_at env j a = st" by (simp add: status_at_def)
  have "poll_attempts fuel env j ((a # as) @ bs) =
      emit [GetDocumentTextDetection j None, poll_log st a, Sleep 5]
        (poll_attempts fuel env j (as @ bs))"
    using g st ns nf by (simp add: poll_log_def emit_def)
  also have "\<dots> = emit [GetDocumentTextDetection j None, poll_log st a, Sleep 5]
      (emit (running_trace env j as) (poll_attempts fuel env j bs))"
    using Cons.IH [OF rest] by simp
  also have "\<dots> = emit (running_trace env j (a # as)) (poll_attempts fuel env j bs)"
    by (simp add: running_trace_def sa emit_def)
  finally show ?case .
qed

lemma paginate_fetch:
  assumes "truthy_str tok"
    and "get_document_text_detection env c j tok = Inr p"
    and "page_chain env j (Suc c) p rest"
    and "length rest < fuel"
  shows "paginate fuel env j js c tok acc =
     (Inr (acc @ concat (map line_texts (p # rest))),
      GetDocumentTextDetection j tok # fetch_trace j (p # rest))"
  using assms
proof (induction rest arbitrary: fuel c tok p acc)
  case Nil
  then obtain f where f: "fuel = Suc f" by (cases fuel) auto
  from Nil show ?case by (simp add: f fetch_trace_def)
next
  case (Cons q rest)
  then obtain f where f: "fuel = Suc f" by (cases fuel) auto
  from Cons.prems(3) have t: "truthy_str (NextToken p)"
    and g: "get_document_text_detection env (Suc c) j (NextToken p) = Inr q"
    and ch: "page_chain env j (Suc (Suc c)) q rest"
    by simp_all
  from Cons.prems(4) f have l: "length rest < f" by simp
  have "paginate f env j js (Suc c) (NextToken p) (acc @ line_texts p) =
      (Inr ((acc @ line_texts p) @ concat (map line_texts (q # rest))),
       GetDocumentTextDetection j (NextToken p) # fetch_trace j (q # rest))"
    by (rule Cons.IH [OF t g ch l])
  with Cons.prems(1,2) t show ?case
    by (simp add: f fetch_trace_def)
qed

lemma paginate_chain:
  assumes "page_chain env j c first rest" and "length rest < fuel"
  shows "paginate fuel env j first c None [] =
     (Inr (concat (map line_texts (first # rest))), fetch_trace j (first # rest))"
proof -
  from assms(2) obtain f where f: "fuel = Suc f" by (cases fuel) auto
  show ?thesis
  proof (cases rest)
    case Nil
    with assms(1) show ?thesis by (simp add: f fetch_trace_def)
  next
    case (Cons p ps)
    with assms(1) have t: "truthy_str (NextToken first)"
      and g: "get_document_text_detection env c j (NextToken first) = Inr p"
      and ch: "page_chain env j (Suc c) p ps"
      by simp_all
    from assms(2) f Cons have l: "length ps < f" by simp
    from paginate_fetch [OF t g ch l, of first "line_texts first"] t Cons show ?thesis
      by (simp add: f fetch_trace_def)
  qed
qed

lemma poll_attempts_succeeds:
  assumes "succeeds_after env j n first rest" and "length rest < fuel"
  shows "poll_attempts fuel env j [0..<max_retries] =
     (Inr (extracted_text (first # rest)),
      running_trace env j [0..<n] @
      [GetDocumentTextDetection j None, poll_log ''SUCCEEDED'' n] @
      fetch_trace j (first # rest) @ [text_log (extracted_text (first # rest))])"
proof -
  from assms(1) have n: "n < max_retries"
    and r: "list_all (running_at env j) [0..<n]"
    and g: "get_document_text_detection env n j None = Inr first"
    and s: "JobStatus first = Some ''SUCCEEDED''"
    and ch: "page_chain env j (Suc n) first rest"
    by (simp_all add: succeeds_after_def)
  have split: "[0..<max_retries] = [0..<n] @ n # [Suc n..<max_retries]"
  proof -
    from n have "[0..<max_retries] = [0..<n + (max_retries - n)]" by simp
    also have "\<dots> = [0..<n] @ [n..<n + (max_retries - n)]"
      by (rule upt_add_eq_append) simp
    also from n have "[n..<n + (max_retries - n)] = n # [Suc n..<max_retries]"
      by (simp add: upt_conv_Cons)
    finally show ?thesis .
  qed
  have "poll_attempts fuel env j (n # [Suc n..<max_retries]) =
     (Inr (extracted_text (first # rest)),
      [GetDocumentTextDetection j None, poll_log ''SUCCEEDED'' n] @
      fetch_trace j (first # rest) @ [text_log (extracted_text (first # rest))])"
    using g s paginate_chain [OF ch assms(2)]
    by (simp add: poll_log_def text_log_def extracted_text_def)
  with poll_attempts_running [OF r, of fuel "n # [Suc n..<max_retries]"] split
  show ?thesis by simp
qed

lemma setup_not_poll: "is_setup e \<Longrightarrow> \<not> is_poll e"
  by (cases e) auto

lemma setup_not_poll_or_sleep: "is_setup e \<Longrightarrow> \<not> is_poll_or_sleep e"
  by (cases e) auto

lemma setup_not_inference: "is_setup e \<Longrightarrow> \<not> is_inference_call e"
  by (cases e) auto

lemma setup_filter:
  assumes "list_all is_setup tr"
  shows "filter is_poll tr = []" and "filter is_poll_or_sleep tr = []"
    and "filter is_inference_call tr = []"
  using assms
  by (auto simp: list_all_iff filter_empty_conv
      dest: setup_not_poll setup_not_poll_or_sleep setup_not_inference)

lemma upload_setup: "list_all is_setup (snd (upload env k p))"
  by (auto simp: upload_def split: option.splits sum.splits)

lemma polling_starts_setup:
  assumes "polling_starts env event question job_id tr"
  shows "list_all is_setup tr"
proof -
  from assms obtain pdf_base64 tr_up where
    u: "upload env (pdf_key_of env) pdf_base64 = (Inr (), tr_up)"
    and t: "tr = [Log INFO (''Incoming event: '' @ json_dumps event)] @ tr_up @
                [Boto3Client ''textract'',
                 StartDocumentTextDetection bucket_name (pdf_key_of env),
                 Log INFO (''Started Textract job: '' @ job_id)]"
    by (rule polling_starts_cases)
  from upload_setup [of env "pdf_key_of env" pdf_base64] u have "list_all is_setup tr_up"
    by simp
  with t show ?thesis by simp
qed

lemma running_trace_polls:
  "filter is_poll_or_sleep (running_trace env j as) =
     concat (replicate (length as) [GetDocumentTextDetection j None, Sleep 5])"
  by (induction as) (simp_all add: running_trace_def poll_log_def)

lemma running_trace_gets:
  "filter is_get (running_trace env j as) =
     replicate (length as) (GetDocumentTextDetection j None)"
  by (induction as) (simp_all add: running_trace_def poll_log_def)

lemma running_trace_no_inference:
  "filter is_inference_call (running_trace env j as) = []"
  by (induction as) (simp_all add: running_trace_def poll_log_def)

lemma fetch_trace_gets: "filter is_get (fetch_trace j pages) = fetch_trace j pages"
  by (simp add: fetch_trace_def filter_map comp_def)

lemma fetch_trace_no_inference: "filter is_inference_call (fetch_trace j pages) = []"
  by (simp add: fetch_trace_def filter_map comp_def)

lemma poll_attempts_all_running:
  assumes "list_all (running_at env j) as"
  shows "poll_attempts fuel env j as = (Inr [], running_trace env j as)"
  using poll_attempts_running [OF assms, of fuel "[]"] by simp

lemma handler_times_out:
  assumes "polling_starts env event question job_id tr"
    and "list_all (running_at env job_id) [0..<max_retries]"
  shows "lambda_handler fuel env event =
     (Some (create_error_response 500 ''Textract processing timeout'' None),
      tr @ running_trace env job_id [0..<max_retries])"
  using handler_from_polling [OF assms(1), of fuel] poll_attempts_all_running [OF assms(2), of fuel]
  by (simp add: after_polling_def reported_def)

lemma handler_empty_text:
  assumes "polling_starts env event question job_id tr"
    and "succeeds_after env job_id n first rest" and "length rest < fuel"
    and "extracted_text (first # rest) = []"
  shows "lambda_handler fuel env event =
     (Some (create_error_response 500 ''Textract processing timeout'' None),
      tr @ running_trace env job_id [0..<n] @
      [GetDocumentTextDetection job_id None, poll_log ''SUCCEEDED'' n] @
      fetch_trace job_id (first # rest) @ [text_log []])"
  using handler_from_polling [OF assms(1), of fuel] poll_attempts_succeeds [OF assms(2,3)] assms(4)
  by (simp add: after_polling_def reported_def)

lemma handler_with_text:
  assumes "polling_starts env event question job_id tr"
    and "succeeds_after env job_id n first rest" and "length rest < fuel"
    and "extracted_text (first # rest) \<noteq> []"
  shows "lambda_handler fuel env event =
     emit (tr @ running_trace env job_id [0..<n] @
           [GetDocumentTextDetection job_id None, poll_log ''SUCCEEDED'' n] @
           fetch_trace job_id (first # rest) @ [text_log (extracted_text (first # rest))])
       (reported ''Textract processing error: ''
          (inference_stage env (pdf_key_of env) question (extracted_text (first # rest))))"
proof -
  obtain fl tr' where i: "inference_stage env (pdf_key_of env) question
      (extracted_text (first # rest)) = (fl, tr')"
    by (cases "inference_stage env (pdf_key_of env) question (extracted_text (first # rest))")
  show ?thesis
    using handler_from_polling [OF assms(1), of fuel] poll_attempts_succeeds [OF assms(2,3)]
      assms(4) i
    by (cases fl) (simp_all add: after_polling_def reported_def)
qed

lemma poll_attempts_failed:
  assumes "n < max_retries" and "list_all (running_at env j) [0..<n]"
    and "get_document_text_detection env n j None = Inr job_status"
    and "JobStatus job_status = Some ''FAILED''"
  shows "poll_attempts fuel env j [0..<max_retries] =
     (Inl (Return (create_error_response 500 ''Textract processing failed''
        (Some (case StatusMessage job_status of
                 None \<Rightarrow> ''No error details available'' | Some m \<Rightarrow> m)))),
      running_trace env j [0..<n] @ [GetDocumentTextDetection j None, poll_log ''FAILED'' n])"
proof -
  have split: "[0..<max_retries] = [0..<n] @ n # [Suc n..<max_retries]"
  proof -
    from assms(1) have "[0..<max_retries] = [0..<n + (max_retries - n)]" by simp
    also have "\<dots> = [0..<n] @ [n..<n + (max_retries - n)]"
      by (rule upt_add_eq_append) simp
    also from assms(1) have "[n..<n + (max_retries - n)] = n # [Suc n..<max_retries]"
      by (simp add: upt_conv_Cons)
    finally show ?thesis .
  qed
  have "poll_attempts fuel env j (n # [Suc n..<max_retries]) =
     (Inl (Return (create_error_response 500 ''Textract processing failed''
        (Some (case StatusMessage job_status of
                 None \<Rightarrow> ''No error details available'' | Some m \<Rightarrow> m)))),
      [GetDocumentTextDetection j None, poll_log ''FAILED'' n])"
    using assms(3,4) by (simp add: poll_log_def)
  with poll_attempts_running [OF assms(2), of fuel "n # [Suc n..<max_retries]"] split
  show ?thesis by simp
qed

lemma failed_details:
  "create_error_response 500 ''Textract processing failed''
     (Some (case sm of None \<Rightarrow> ''No error details available'' | Some m \<Rightarrow> m)) =
   \<lparr>statusCode = 500, headers = json_cors_headers,
    body = error_envelope ''Textract processing failed'' (failure_details sm)\<rparr>"
  by (cases sm)
    (simp_all add: create_error_response_def json_cors_headers_def error_envelope_def
      failure_details_def)

lemma handler_job_failed:
  assumes "polling_starts env event question job_id tr"
    and "n < max_retries" and "list_all (running_at env job_id) [0..<n]"
    and "get_document_text_detection env n job_id None = Inr job_status"
    and "JobStatus job_status = Some ''FAILED''"
  shows "lambda_handler fuel env event =
     (Some \<lparr>statusCode = 500, headers = json_cors_headers,
            body = error_envelope ''Textract processing failed''
                     (failure_details (StatusMessage job_status))\<rparr>,
      tr @ running_trace env job_id [0..<n] @
      [GetDocumentTextDetection job_id None, poll_log ''FAILED'' n])"
  using handler_from_polling [OF assms(1), of fuel] poll_attempts_failed [OF assms(2-5), of fuel]
  by (simp add: after_polling_def reported_def failed_details)

lemma paginate_no_poll: "filter is_poll (snd (paginate fuel env j js c tok acc)) = []"
proof (induction fuel arbitrary: c tok acc)
  case 0
  show ?case by simp
next
  case (Suc fuel)
  show ?case
  proof (cases "truthy_str tok")
    case True
    then obtain s where "tok = Some s" by (cases tok) auto
    with True Suc.IH show ?thesis
      by (auto split: sum.splits)
  next
    case False
    with Suc.IH show ?thesis
      by (auto split: sum.splits)
  qed
qed

lemma poll_attempts_polls:
  "length (filter is_poll (snd (poll_attempts fuel env j as))) \<le> length as"
proof (induction as)
  case Nil
  show ?case by simp
next
  case (Cons a as)
  show ?case
  proof (cases "get_document_text_detection env a j None")
    case (Inl e)
    then show ?thesis by simp
  next
    case (Inr js)
    show ?thesis
    proof (cases "JobStatus js")
      case None
      with Inr show ?thesis by simp
    next
      case (Some st)
      consider "st = ''SUCCEEDED''" | "st \<noteq> ''SUCCEEDED''" "st = ''FAILED''"
        | "st \<noteq> ''SUCCEEDED''" "st \<noteq> ''FAILED''" by blast
      then show ?thesis
      proof cases
        case 1
        obtain res tr where pg: "paginate fuel env j js (Suc a) None [] = (res, tr)"
          by (cases "paginate fuel env j js (Suc a) None []")
        with paginate_no_poll [of fuel env j js "Suc a" None "[]"]
        have "filter is_poll tr = []" by simp
        with 1 Inr Some pg show ?thesis by (cases res) simp_all
      next
        case 2
        with Inr Some show ?thesis by simp
      next
        case 3
        with Inr Some Cons.IH show ?thesis by simp
      qed
    qed
  qed
qed

lemma delete_pdf_no_poll: "filter is_poll (snd (delete_pdf env k)) = []"
  by (simp add: delete_pdf_def split: option.splits)

lemma inference_body_no_poll: "filter is_poll (snd (inference_body env k q t)) = []"
proof -
  obtain res tr where d: "delete_pdf env k = (res, tr)" by (cases "delete_pdf env k")
  with delete_pdf_no_poll [of env k] have "filter is_poll tr = []" by simp
  with d show ?thesis
    by (simp add: inference_body_def Let_def split: sum.splits)
qed

lemma inference_stage_no_poll: "filter is_poll (snd (inference_stage env k q t)) = []"
proof -
  obtain fl tr where b: "inference_body env k q t = (fl, tr)"
    by (cases "inference_body env k q t")
  with inference_body_no_poll [of env k q t] have "filter is_poll tr = []" by simp
  with b show ?thesis
    by (cases fl) (simp_all add: inference_stage_def)
qed

lemma textract_body_polls:
  "length (filter is_poll (snd (textract_body fuel env k q))) \<le> max_retries"
proof (cases "boto3_client env ''textract''")
  case (Some e)
  then show ?thesis by (simp add: textract_body_def)
next
  case None
  show ?thesis
  proof (cases "start_document_text_detection env bucket_name k")
    case (Inl e)
    with None show ?thesis by (simp add: textract_body_def)
  next
    case (Inr sr)
    show ?thesis
    proof (cases "JobId sr")
      case n: None
      with None Inr show ?thesis by (simp add: textract_body_def)
    next
      case (Some j)
      obtain res tr where pa: "poll_attempts fuel env j [0..<max_retries] = (res, tr)"
        by (cases "poll_attempts fuel env j [0..<max_retries]")
      with poll_attempts_polls [of fuel env j "[0..<max_retries]"]
      have b: "length (filter is_poll tr) \<le> max_retries" by simp
      show ?thesis
      proof (cases res)
        case (Inl fl)
        with None Inr Some pa b show ?thesis by (simp add: textract_body_def)
      next
        case r: (Inr t)
        with None Inr Some pa b inference_stage_no_poll [of env k q t] show ?thesis
          by (simp add: textract_body_def)
      qed
    qed
  qed
qed

lemma textract_stage_polls:
  "length (filter is_poll (snd (textract_stage fuel env k q))) \<le> max_retries"
proof -
  obtain fl tr where b: "textract_body fuel env k q = (fl, tr)"
    by (cases "textract_body fuel env k q")
  with textract_body_polls [of fuel env k q] show ?thesis
    by (cases fl) (simp_all add: textract_stage_def)
qed

lemma handler_body_polls:
  "length (filter is_poll (snd (handler_body fuel env event))) \<le> max_retries"
proof (cases "parse_body env event")
  case (Inl fl)
  then show ?thesis by (simp add: handler_body_def)
next
  case (Inr b)
  show ?thesis
  proof (cases "validate b")
    case (Inl fl)
    with Inr show ?thesis by (simp add: handler_body_def)
  next
    case v: (Inr pq)
    obtain p q where pq: "pq = (p, q)" by (cases pq)
    obtain res tr where u: "upload env (''uploads/'' @ uuid4 env @ ''.pdf'') p = (res, tr)"
      by (cases "upload env (''uploads/'' @ uuid4 env @ ''.pdf'') p")
    from upload_setup [of env "''uploads/'' @ uuid4 env @ ''.pdf''" p] u
    have s: "filter is_poll tr = []" by (simp add: setup_filter)
    show ?thesis
    proof (cases res)
      case (Inl fl)
      with Inr v pq u s show ?thesis by (simp add: handler_body_def)
    next
      case r: (Inr x)
      with Inr v pq u s textract_stage_polls [of fuel env "''uploads/'' @ uuid4 env @ ''.pdf''" q]
      show ?thesis by (simp add: handler_body_def)
    qed
  qed
qed

lemma lambda_handler_polls:
  "length (filter is_poll (snd (lambda_handler fuel env event))) \<le> max_retries"
proof -
  obtain fl tr where b: "handler_body fuel env event = (fl, tr)"
    by (cases "handler_body fuel env event")
  with handler_body_polls [of fuel env event] show ?thesis
    by (cases fl) (simp_all add: lambda_handler_def)
qed

subsection \<open>The example runs\<close>

lemma demo_env_simps [simp]:
  "json_loads (demo_env ocr) = demo_loads"
  "uuid4 (demo_env ocr) = ''3f2b8c1e-0d4a-4c6e-9b1a-7e5d2f0a6c11''"
  "b64decode (demo_env ocr) v = Inr ''%PDF''"
  "boto3_client (demo_env ocr) name = None"
  "put_object (demo_env ocr) bucket key data = None"
  "start_document_text_detection (demo_env ocr) bucket key = Inr \<lparr>JobId = Some ''job-1''\<rparr>"
  "get_document_text_detection (demo_env ocr) = ocr"
  "delete_object (demo_env ocr) bucket key = None"
  by (simp_all add: demo_env_def)

lemma demo_polling_starts:
  "polling_starts (demo_env ocr) demo_event (PStr ''Why?'') ''job-1'' demo_prefix"
proof -
  have p: "parse_body (demo_env ocr) demo_event =
      Inr (PDict [(''pdf_base64'', PStr ''JVBERg==''), (''question'', PStr ''Why?'')])"
    by (simp add: demo_event_def parse_demo_body demo_loads_def)
  have v: "validate (PDict [(''pdf_base64'', PStr ''JVBERg==''), (''question'', PStr ''Why?'')]) =
      Inr (PStr ''JVBERg=='', PStr ''Why?'')"
    by (simp add: validate_def py_get_def)
  have k: "pdf_key_of (demo_env ocr) = ''uploads/3f2b8c1e-0d4a-4c6e-9b1a-7e5d2f0a6c11.pdf''"
    by (simp add: pdf_key_of_def)
  have u: "upload (demo_env ocr) ''uploads/3f2b8c1e-0d4a-4c6e-9b1a-7e5d2f0a6c11.pdf''
      (PStr ''JVBERg=='') =
      (Inr (), [Boto3Client ''s3'',
        PutObject ''awshugb'' ''uploads/3f2b8c1e-0d4a-4c6e-9b1a-7e5d2f0a6c11.pdf'' ''%PDF'',
        Log INFO ''Successfully uploaded PDF to S3''])"
    by (simp add: upload_def bucket_name_def)
  show ?thesis
    unfolding polling_starts_def
    by (simp add: p v k u demo_prefix_def bucket_name_def)
qed

lemma demo_running: "running_at (demo_env ocr_running) j a"
  by (simp add: running_at_def ocr_running_def demo_page_def)

lemma demo_all_running: "list_all (running_at (demo_env ocr_running) j) as"
  by (simp add: list_all_iff demo_running)

lemma demo_invalid_json:
  "lambda_handler fuel (demo_env ocr) (event_with_body ''not json'') =
     (Some (create_error_response 400 ''Invalid JSON in request body'' None),
      [Log INFO (''Incoming event: '' @ json_dumps (event_with_body ''not json''))])"
  by (simp add: lambda_handler_def handler_body_def parse_demo_body demo_loads_def
      demo_request_def)

lemma demo_failed_first_running:
  "list_all (running_at (demo_env (ocr_failed sm)) j) [0..<1]"
  by (simp add: running_at_def ocr_failed_def demo_page_def)

lemma success_trace_gets:
  "filter is_get (running_trace env j [0..<n] @
      [GetDocumentTextDetection j None, poll_log ''SUCCEEDED'' n] @
      fetch_trace j pages @ [text_log t]) =
   replicate (Suc n) (GetDocumentTextDetection j None) @
   map (\<lambda>p. GetDocumentTextDetection j (NextToken p)) (butlast pages)"
proof -
  have "replicate n (GetDocumentTextDetection j None) @ [GetDocumentTextDetection j None] =
      replicate (Suc n) (GetDocumentTextDetection j None)"
    by (simp add: replicate_append_same)
  then show ?thesis
    using running_trace_gets [of env j "[0..<n]"] fetch_trace_gets [of j pages]
    by (simp add: poll_log_def text_log_def fetch_trace_def)
qed

lemma demo_two_pages:
  "succeeds_after (demo_env ocr_two_pages) ''job-1'' 2
     (demo_page ''SUCCEEDED'' [''Alpha'', ''Beta''] (Some ''t1''))
     [demo_page ''SUCCEEDED'' [''Gamma''] None]"
proof -
  have "[0..<2] = [0, Suc 0]" by (simp add: upt_rec)
  then show ?thesis
    by (simp add: succeeds_after_def max_retries_def ocr_two_pages_def running_at_def
        demo_page_def)
qed

lemma empty_text_no_inference:
  "filter is_inference_call (running_trace env j [0..<n] @
      [GetDocumentTextDetection j None, poll_log ''SUCCEEDED'' n] @
      fetch_trace j pages @ [text_log t]) = []"
  using running_trace_no_inference [of env j "[0..<n]"] fetch_trace_no_inference [of j pages]
  by (simp add: poll_log_def text_log_def)

lemma demo_blank:
  "succeeds_after (demo_env ocr_blank) ''job-1'' 0 (demo_page ''SUCCEEDED'' [] None) []"
  by (simp add: succeeds_after_def max_retries_def ocr_blank_def demo_page_def)

subsection \<open>Responses are uniform\<close>

text \<open>
  C9: every response the handler returns carries the headers
  \<^verbatim>\<open>Content-Type: application/json\<close> and \<^verbatim>\<open>Access-Control-Allow-Origin: *\<close>, and the
  body of every response whose status is not 200 is the envelope of an error message and
  details, the details being the message itself unless the failed job supplied its own;
  \<^verbatim>\<open>create_error_response\<close> without details repeats the message.
\<close>

theorem responses_uniform:
  "(fst (lambda_handler fuel env event) = Some r \<longrightarrow> uniform_response r) \<and>
   body (create_error_response sc m None) = error_envelope m m"
proof -
  obtain fl tr where b: "handler_body fuel env event = (fl, tr)"
    by (cases "handler_body fuel env event")
  have "uniform_response r" if "fst (lambda_handler fuel env event) = Some r"
  proof (cases fl)
    case (Return r')
    with b that have "r' = r" by (simp add: lambda_handler_def)
    with b Return handler_body_uniform [of fuel env event r] show ?thesis by simp
  next
    case (Raise e)
    with b that show ?thesis
      by (auto simp: lambda_handler_def uniform_error_plain)
  next
    case Diverge
    with b that show ?thesis by (simp add: lambda_handler_def)
  qed
  then show ?thesis by (simp add: body_error)
qed

text \<open>A request whose body is not JSON.\<close>

theorem responses_uniform_witness:
  "fst (lambda_handler 0 (demo_env ocr_running) (event_with_body ''not json'')) =
     Some (create_error_response 400 ''Invalid JSON in request body'' None) \<and>
   uniform_response (create_error_response 400 ''Invalid JSON in request body'' None) \<and>
   headers (create_error_response 400 ''Invalid JSON in request body'' None) =
     [(''Content-Type'', ''application/json''), (''Access-Control-Allow-Origin'', ''*'')] \<and>
   body (create_error_response 400 ''Invalid JSON in request body'' None) =
     error_envelope ''Invalid JSON in request body'' ''Invalid JSON in request body''"
proof -
  have h: "fst (lambda_handler 0 (demo_env ocr_running) (event_with_body ''not json'')) =
      Some (create_error_response 400 ''Invalid JSON in request body'' None)"
    by (simp add: demo_invalid_json)
  from responses_uniform [of 0 "demo_env ocr_running" "event_with_body ''not json''"
      "create_error_response 400 ''Invalid JSON in request body'' None" 400
      "''Invalid JSON in request body''"] h
  show ?thesis by (simp add: json_cors_headers_def)
qed

subsection \<open>The polling budget\<close>

text \<open>
  C2: when every status poll finds the job running, the handler polls 12 times, sleeps 5
  after each poll, and returns the 500 response \<^verbatim>\<open>Textract processing timeout\<close>; and
  in no run at all, whatever the event and the services, are there more than 12 status
  polls.
\<close>

theorem polling_times_out:
  assumes "polling_starts env event question job_id tr"
    and "list_all (running_at env job_id) [0..<max_retries]"
  shows "fst (lambda_handler fuel env event) =
       Some (create_error_response 500 ''Textract processing timeout'' None) \<and>
     filter is_poll_or_sleep (snd (lambda_handler fuel env event)) =
       concat (replicate 12 [GetDocumentTextDetection job_id None, Sleep 5]) \<and>
     (\<forall>fuel' env' event'.
        length (filter is_poll (snd (lambda_handler fuel' env' event'))) \<le> 12)"
proof -
  have "filter is_poll_or_sleep tr = []"
    using polling_starts_setup [OF assms(1)] by (rule setup_filter)
  moreover have "length [0..<max_retries] = 12"
    by (simp add: max_retries_def)
  ultimately have "filter is_poll_or_sleep (tr @ running_trace env job_id [0..<max_retries]) =
      concat (replicate 12 [GetDocumentTextDetection job_id None, Sleep 5])"
    using running_trace_polls [of env job_id "[0..<max_retries]"] by simp
  moreover have "length (filter is_poll (snd (lambda_handler fuel' env' event'))) \<le> 12"
    for fuel' env' event'
    using lambda_handler_polls [of fuel' env' event'] by (simp add: max_retries_def)
  ultimately show ?thesis
    using handler_times_out [OF assms, of fuel] by simp
qed

text \<open>A job that never leaves \<^verbatim>\<open>IN_PROGRESS\<close>.\<close>

theorem polling_times_out_witness:
  "polling_starts (demo_env ocr_running) demo_event (PStr ''Why?'') ''job-1'' demo_prefix \<and>
   list_all (running_at (demo_env ocr_running) ''job-1'') [0..<max_retries] \<and>
   fst (lambda_handler 0 (demo_env ocr_running) demo_event) =
     Some (create_error_response 500 ''Textract processing timeout'' None) \<and>
   filter is_poll_or_sleep (snd (lambda_handler 0 (demo_env ocr_running) demo_event)) =
     concat (replicate 12 [GetDocumentTextDetection ''job-1'' None, Sleep 5])"
proof -
  have s: "polling_starts (demo_env ocr_running) demo_event (PStr ''Why?'') ''job-1'' demo_prefix"
    by (rule demo_polling_starts)
  have r: "list_all (running_at (demo_env ocr_running) ''job-1'') [0..<max_retries]"
    by (rule demo_all_running)
  from polling_times_out [OF s r, of 0] s r show ?thesis by simp
qed

subsection \<open>A failed job\<close>

text \<open>
  C3, as amended: when the job reports \<^verbatim>\<open>FAILED\<close> at poll \<open>n + 1\<close>, the handler
  returns a 500 response \<^verbatim>\<open>Textract processing failed\<close> whose details are the status
  message of the service when there is one and it is not empty, the placeholder
  \<^verbatim>\<open>No error details available\<close> when there is none, and the error message itself
  when it is empty; the run ends with that poll and its log line: no further poll, no
  fetch, no inference call.
\<close>

theorem failed_job_reported:
  assumes "polling_starts env event question job_id tr"
    and "n < max_retries" and "list_all (running_at env job_id) [0..<n]"
    and "get_document_text_detection env n job_id None = Inr job_status"
    and "JobStatus job_status = Some ''FAILED''"
  shows "lambda_handler fuel env event =
     (Some \<lparr>statusCode = 500, headers = json_cors_headers,
            body = error_envelope ''Textract processing failed''
                     (failure_details (StatusMessage job_status))\<rparr>,
      tr @ running_trace env job_id [0..<n] @
      [GetDocumentTextDetection job_id None, poll_log ''FAILED'' n])"
  using assms by (rule handler_job_failed)

text \<open>A job that fails at the second poll with a status message.\<close>

theorem failed_job_reported_witness:
  "polling_starts (demo_env (ocr_failed (Some ''Unsupported document''))) demo_event
     (PStr ''Why?'') ''job-1'' demo_prefix \<and>
   1 < max_retries \<and>
   list_all (running_at (demo_env (ocr_failed (Some ''Unsupported document''))) ''job-1'') [0..<1] \<and>
   get_document_text_detection (demo_env (ocr_failed (Some ''Unsupported document''))) 1
     ''job-1'' None = Inr (failed_status (Some ''Unsupported document'')) \<and>
   JobStatus (failed_status (Some ''Unsupported document'')) = Some ''FAILED'' \<and>
   lambda_handler 0 (demo_env (ocr_failed (Some ''Unsupported document''))) demo_event =
     (Some \<lparr>statusCode = 500, headers = json_cors_headers,
            body = error_envelope ''Textract processing failed'' ''Unsupported document''\<rparr>,
      demo_prefix @
      [GetDocumentTextDetection ''job-1'' None, poll_log ''IN_PROGRESS'' 0, Sleep 5,
       GetDocumentTextDetection ''job-1'' None, poll_log ''FAILED'' 1])"
proof -
  let ?env = "demo_env (ocr_failed (Some ''Unsupported document''))"
  have s: "polling_starts ?env demo_event (PStr ''Why?'') ''job-1'' demo_prefix"
    by (rule demo_polling_starts)
  have n: "1 < max_retries" by (simp add: max_retries_def)
  have r: "list_all (running_at ?env ''job-1'') [0..<1]"
    by (rule demo_failed_first_running)
  have g: "get_document_text_detection ?env 1 ''job-1'' None =
      Inr (failed_status (Some ''Unsupported document''))"
    by (simp add: ocr_failed_def)
  have f: "JobStatus (failed_status (Some ''Unsupported document'')) = Some ''FAILED''"
    by (simp add: failed_status_def)
  have t: "running_trace ?env ''job-1'' [0..<1] =
      [GetDocumentTextDetection ''job-1'' None, poll_log ''IN_PROGRESS'' 0, Sleep 5]"
    by (simp add: running_trace_def status_at_def ocr_failed_def demo_page_def)
  from failed_job_reported [OF s n r g f, of 0] s n r g f t show ?thesis
    by (simp add: failure_details_def failed_status_def)
qed

text \<open>
  C3 as it is stated fails for a status message that is present and empty: the details
  are then neither that message nor the placeholder.
\<close>

theorem failed_job_counterexample:
  "JobStatus (failed_status (Some [])) = Some ''FAILED'' \<and>
   StatusMessage (failed_status (Some [])) = Some [] \<and>
   get_document_text_detection (demo_env (ocr_failed (Some []))) 1 ''job-1'' None =
     Inr (failed_status (Some [])) \<and>
   map_option body (fst (lambda_handler 0 (demo_env (ocr_failed (Some []))) demo_event)) =
     Some (error_envelope ''Textract processing failed'' ''Textract processing failed'') \<and>
   error_envelope ''Textract processing failed'' ''Textract processing failed'' \<noteq>
     error_envelope ''Textract processing failed'' [] \<and>
   error_envelope ''Textract processing failed'' ''Textract processing failed'' \<noteq>
     error_envelope ''Textract processing failed'' ''No error details available''"
proof -
  let ?env = "demo_env (ocr_failed (Some []))"
  have s: "polling_starts ?env demo_event (PStr ''Why?'') ''job-1'' demo_prefix"
    by (rule demo_polling_starts)
  have n: "1 < max_retries" by (simp add: max_retries_def)
  have r: "list_all (running_at ?env ''job-1'') [0..<1]"
    by (rule demo_failed_first_running)
  have g: "get_document_text_detection ?env 1 ''job-1'' None = Inr (failed_status (Some []))"
    by (simp add: ocr_failed_def)
  have f: "JobStatus (failed_status (Some [])) = Some ''FAILED''"
    by (simp add: failed_status_def)
  have m: "StatusMessage (failed_status (Some [])) = Some []"
    by (simp add: failed_status_def)
  have d1: "error_envelope ''Textract processing failed'' ''Textract processing failed'' \<noteq>
     error_envelope ''Textract processing failed'' []"
    by code_simp
  have d2: "error_envelope ''Textract processing failed'' ''Textract processing failed'' \<noteq>
     error_envelope ''Textract processing failed'' ''No error details available''"
    by code_simp
  from handler_job_failed [OF s n r g f, of 0] f m g d1 d2 show ?thesis
    by (simp add: failure_details_def)
qed

subsection \<open>The extracted text\<close>

text \<open>
  C1: when the job reports \<^verbatim>\<open>SUCCEEDED\<close> at poll \<open>n + 1\<close> (with \<open>n + 1\<close> at most 12,
  the \<open>n\<close> polls before having found it running), the text the loop hands on is the texts
  of the \<^verbatim>\<open>LINE\<close> blocks, page after page in the order the pages were fetched and in
  block order within a page, joined with single spaces; the formula does not mention
  \<open>n\<close>. The pages are the one the successful poll returned and then those fetched with
  the token of the page before, until a page carries no token: the calls of the run are
  \<open>n + 1\<close> polls and one fetch for each token. A text that is not empty is what the
  inference stage is run on.
\<close>

theorem extracted_text_lines:
  assumes "succeeds_after env job_id n first rest" and "length rest < fuel"
  shows "fst (poll_attempts fuel env job_id [0..<max_retries]) =
       Inr (join_str '' '' (concat (map line_texts (first # rest)))) \<and>
     filter is_get (snd (poll_attempts fuel env job_id [0..<max_retries])) =
       replicate (Suc n) (GetDocumentTextDetection job_id None) @
       map (\<lambda>p. GetDocumentTextDetection job_id (NextToken p)) (butlast (first # rest)) \<and>
     (polling_starts env event question job_id tr \<and>
      join_str '' '' (concat (map line_texts (first # rest))) \<noteq> [] \<longrightarrow>
      fst (lambda_handler fuel env event) =
        fst (reported ''Textract processing error: ''
               (inference_stage env (pdf_key_of env) question
                  (join_str '' '' (concat (map line_texts (first # rest)))))))"
proof -
  have "fst (lambda_handler fuel env event) =
        fst (reported ''Textract processing error: ''
               (inference_stage env (pdf_key_of env) question
                  (join_str '' '' (concat (map line_texts (first # rest))))))"
    if "polling_starts env event question job_id tr"
      and "join_str '' '' (concat (map line_texts (first # rest))) \<noteq> []"
    using handler_with_text [OF that(1) assms] that(2)
    by (simp add: extracted_text_def)
  then show ?thesis
    using poll_attempts_succeeds [OF assms] success_trace_gets [of env job_id n "first # rest"]
    by (simp add: extracted_text_def)
qed

text \<open>Success at the third poll, two pages.\<close>

theorem extracted_text_lines_witness:
  "succeeds_after (demo_env ocr_two_pages) ''job-1'' 2
     (demo_page ''SUCCEEDED'' [''Alpha'', ''Beta''] (Some ''t1''))
     [demo_page ''SUCCEEDED'' [''Gamma''] None] \<and>
   length [demo_page ''SUCCEEDED'' [''Gamma''] None] < 2 \<and>
   polling_starts (demo_env ocr_two_pages) demo_event (PStr ''Why?'') ''job-1'' demo_prefix \<and>
   fst (poll_attempts 2 (demo_env ocr_two_pages) ''job-1'' [0..<max_retries]) =
     Inr ''Alpha Beta Gamma'' \<and>
   filter is_get (snd (poll_attempts 2 (demo_env ocr_two_pages) ''job-1'' [0..<max_retries])) =
     [GetDocumentTextDetection ''job-1'' None, GetDocumentTextDetection ''job-1'' None,
      GetDocumentTextDetection ''job-1'' None, GetDocumentTextDetection ''job-1'' (Some ''t1'')] \<and>
   fst (lambda_handler 2 (demo_env ocr_two_pages) demo_event) =
     fst (reported ''Textract processing error: ''
            (inference_stage (demo_env ocr_two_pages) (pdf_key_of (demo_env ocr_two_pages))
               (PStr ''Why?'') ''Alpha Beta Gamma''))"
proof -
  have s: "succeeds_after (demo_env ocr_two_pages) ''job-1'' 2
     (demo_page ''SUCCEEDED'' [''Alpha'', ''Beta''] (Some ''t1''))
     [demo_page ''SUCCEEDED'' [''Gamma''] None]"
    by (rule demo_two_pages)
  have l: "length [demo_page ''SUCCEEDED'' [''Gamma''] None] < 2" by simp
  have p: "polling_starts (demo_env ocr_two_pages) demo_event (PStr ''Why?'') ''job-1'' demo_prefix"
    by (rule demo_polling_starts)
  have t: "join_str '' '' (concat (map line_texts
      [demo_page ''SUCCEEDED'' [''Alpha'', ''Beta''] (Some ''t1''),
       demo_page ''SUCCEEDED'' [''Gamma''] None])) = ''Alpha Beta Gamma''"
    by (simp add: line_texts_def demo_page_def)
  have n: "replicate (Suc 2) (GetDocumentTextDetection ''job-1'' None) =
     [GetDocumentTextDetection ''job-1'' None, GetDocumentTextDetection ''job-1'' None,
      GetDocumentTextDetection ''job-1'' None]"
    by (simp add: numeral_2_eq_2)
  have k: "NextToken (demo_page ''SUCCEEDED'' [''Alpha'', ''Beta''] (Some ''t1'')) = Some ''t1''"
    by (simp add: demo_page_def)
  from extracted_text_lines [OF s l, of demo_event "PStr ''Why?''" demo_prefix] s l p
  show ?thesis
    unfolding t n by (simp add: k)
qed

subsection \<open>An empty text\<close>

text \<open>
  C4: a job that succeeds with an empty text and a job that stays running for all 12
  polls get the same response, status 500 with the message
  \<^verbatim>\<open>Textract processing timeout\<close>, and neither run calls the inference endpoint.
\<close>

theorem empty_text_is_timeout:
  assumes "polling_starts env event question job_id tr"
    and "succeeds_after env job_id n first rest" and "length rest < fuel"
    and "join_str '' '' (concat (map line_texts (first # rest))) = []"
    and "polling_starts env' event' question' job_id' tr'"
    and "list_all (running_at env' job_id') [0..<max_retries]"
  shows "fst (lambda_handler fuel env event) =
       Some (create_error_response 500 ''Textract processing timeout'' None) \<and>
     fst (lambda_handler fuel' env' event') = fst (lambda_handler fuel env event) \<and>
     filter is_inference_call (snd (lambda_handler fuel env event)) = [] \<and>
     filter is_inference_call (snd (lambda_handler fuel' env' event')) = []"
proof -
  from assms(4) have e: "extracted_text (first # rest) = []"
    by (simp add: extracted_text_def)
  have a: "filter is_inference_call tr = []"
    using polling_starts_setup [OF assms(1)] by (rule setup_filter)
  have b: "filter is_inference_call tr' = []"
    using polling_starts_setup [OF assms(5)] by (rule setup_filter)
  show ?thesis
    using handler_empty_text [OF assms(1-3) e] handler_times_out [OF assms(5,6), of fuel'] a b
      empty_text_no_inference [of env job_id n "first # rest" "[]"]
      running_trace_no_inference [of env' job_id' "[0..<max_retries]"]
    by simp
qed

text \<open>A job that succeeds at once with a page without lines, and one that stays running.\<close>

theorem empty_text_is_timeout_witness:
  "polling_starts (demo_env ocr_blank) demo_event (PStr ''Why?'') ''job-1'' demo_prefix \<and>
   succeeds_after (demo_env ocr_blank) ''job-1'' 0 (demo_page ''SUCCEEDED'' [] None) [] \<and>
   join_str '' '' (concat (map line_texts [demo_page ''SUCCEEDED'' [] None])) = [] \<and>
   polling_starts (demo_env ocr_running) demo_event (PStr ''Why?'') ''job-1'' demo_prefix \<and>
   list_all (running_at (demo_env ocr_running) ''job-1'') [0..<max_retries] \<and>
   fst (lambda_handler 1 (demo_env ocr_blank) demo_event) =
     Some (create_error_response 500 ''Textract processing timeout'' None) \<and>
   fst (lambda_handler 0 (demo_env ocr_running) demo_event) =
     fst (lambda_handler 1 (demo_env ocr_blank) demo_event) \<and>
   filter is_inference_call (snd (lambda_handler 1 (demo_env ocr_blank) demo_event)) = [] \<and>
   filter is_inference_call (snd (lambda_handler 0 (demo_env ocr_running) demo_event)) = []"
proof -
  have p: "polling_starts (demo_env ocr_blank) demo_event (PStr ''Why?'') ''job-1'' demo_prefix"
    by (rule demo_polling_starts)
  have s: "succeeds_after (demo_env ocr_blank) ''job-1'' 0 (demo_page ''SUCCEEDED'' [] None) []"
    by (rule demo_blank)
  have l: "length ([] :: detection list) < 1" by simp
  have t: "join_str '' '' (concat (map line_texts [demo_page ''SUCCEEDED'' [] None])) = []"
    by (simp add: line_texts_def demo_page_def)
  have p': "polling_starts (demo_env ocr_running) demo_event (PStr ''Why?'') ''job-1'' demo_prefix"
    by (rule demo_polling_starts)
  have r: "list_all (running_at (demo_env ocr_running) ''job-1'') [0..<max_retries]"
    by (rule demo_all_running)
  from empty_text_is_timeout [OF p s l t p' r, of 0] p s t p' r show ?thesis
    by simp
qed

subsection \<open>The inference stage\<close>

lemma handler_from_text:
  assumes "polling_starts env event question job_id tr0"
    and "poll_attempts fuel env job_id [0..<max_retries] = (Inr t, tr1)"
    and "t \<noteq> []"
  shows "lambda_handler fuel env event =
     emit (tr0 @ tr1) (reported ''Textract processing error: ''
       (inference_stage env (pdf_key_of env) question t))"
proof -
  obtain fl tr where i: "inference_stage env (pdf_key_of env) question t = (fl, tr)"
    by (cases "inference_stage env (pdf_key_of env) question t")
  show ?thesis
    using handler_from_polling [OF assms(1), of fuel] assms(2,3) i
    by (cases fl) (simp_all add: after_polling_def reported_def)
qed

text \<open>
  Line 124 keeps the first 2000 characters of the text: what follows them does not reach
  the prompt, and a single request is sent.
\<close>

lemma prompt_of_truncated:
  "max_context_length \<le> length t \<Longrightarrow> prompt_of env q (t @ u) = prompt_of env q t"
  by (simp add: prompt_of_def)

lemma build_prompt_nonempty: "build_prompt c q \<noteq> []"
  by (simp add: build_prompt_def)

lemma replace_from_absent:
  "\<not> sublist old s \<Longrightarrow> replace_from old new s = s"
proof (induction old new s rule: replace_from.induct)
  case (1 old new)
  show ?case by simp
next
  case (2 old new c cs)
  from "2.prems" have np: "\<not> prefix old (c # cs)"
    using prefix_imp_sublist by blast
  from "2.prems" have "\<not> sublist old cs"
    by (auto simp: sublist_Cons_right)
  with "2.IH"(2) np have "replace_from old new cs = cs" by simp
  with np show ?case by simp
qed

lemma replace_from_echo:
  assumes "old \<noteq> []"
  shows "replace_from old [] (old @ r) = replace_from old [] r"
proof -
  from assms obtain c cs where oc: "old = c # cs" by (cases old) auto
  have "replace_from old [] (c # (cs @ r)) =
      [] @ replace_from old [] (drop (length old) (c # (cs @ r)))"
    by (subst replace_from.simps) (simp add: oc)
  then show ?thesis by (simp add: oc)
qed

lemma py_replace_absent: "old \<noteq> [] \<Longrightarrow> \<not> sublist old s \<Longrightarrow> py_replace s old [] = s"
  by (simp add: py_replace_def replace_from_absent)

lemma py_replace_echo:
  "old \<noteq> [] \<Longrightarrow> \<not> sublist old r \<Longrightarrow> py_replace (old @ r) old [] = r"
  by (simp add: py_replace_def replace_from_echo replace_from_absent)

lemma py_strip_ends:
  assumes "py_strip s \<noteq> []"
  shows "\<not> isspace (hd (py_strip s))" and "\<not> isspace (last (py_strip s))"
proof -
  let ?ys = "dropWhile isspace s"
  let ?zs = "dropWhile isspace (rev ?ys)"
  from assms have z: "?zs \<noteq> []" by (simp add: py_strip_def)
  then have "\<not> isspace (hd ?zs)" by (rule hd_dropWhile)
  with z show "\<not> isspace (last (py_strip s))"
    by (simp add: py_strip_def last_rev)
  have "rev ?ys = takeWhile isspace (rev ?ys) @ ?zs" by simp
  then have "?ys = rev ?zs @ rev (takeWhile isspace (rev ?ys))"
    by (metis rev_append rev_rev_ident)
  with z have h: "hd ?ys = hd (rev ?zs)" and y: "?ys \<noteq> []"
    by (metis hd_append2 rev_is_Nil_conv, metis Nil_is_append_conv rev_is_Nil_conv)
  from y have "\<not> isspace (hd ?ys)" by (rule hd_dropWhile)
  with h show "\<not> isspace (hd (py_strip s))" by (simp add: py_strip_def)
qed

lemma extract_answer_candidate:
  assumes "answer_candidate response_data = Some (PDict kvs)"
  shows "extract_answer response_data = Inr (generated_text_field kvs)"
  using assms
  by (auto simp: answer_candidate_def extract_answer_def py_get_def generated_text_field_def
      split: pyval.splits list.splits)

lemma delete_pdf_contained:
  assumes "deletion_contained env k"
  shows "fst (delete_pdf env k) = Inr ()"
  using assms by (auto simp: deletion_contained_def delete_pdf_def split: option.splits)

lemma inference_answer:
  assumes "requests_post env api_url (prompt_of env question t) = Inr api_response"
    and "status_code api_response = 200"
    and "resp_json api_response = Inr response_data"
    and "answer_candidate response_data = Some (PDict kvs)"
    and "generated_text_field kvs = PStr generated"
    and "deletion_contained env k"
  shows "inference_stage env k question t =
     (Return (success_response question
        (py_strip (py_replace generated (prompt_of env question t) [])) t),
      inference_log (prompt_of env question t) api_response @ snd (delete_pdf env k))"
proof -
  obtain tr where d: "delete_pdf env k = (Inr (), tr)"
    using delete_pdf_contained [OF assms(6)] by (cases "delete_pdf env k") auto
  have "inference_body env k question t =
     (Return (success_response question
        (py_strip (py_replace generated (prompt_of env question t) [])) t),
      inference_log (prompt_of env question t) api_response @ tr)"
    using assms(1-3) extract_answer_candidate [OF assms(4)] assms(5) d
    by (simp add: inference_body_def Let_def prompt_of_def [symmetric] clean_answer_def
        inference_log_def)
  with d show ?thesis by (simp add: inference_stage_def)
qed

lemma py_json_loads_frame [simp]:
  "py_json_loads (env\<lparr>delete_object := d\<rparr>) x = py_json_loads env x"
  "py_json_loads (env\<lparr>requests_post := f\<rparr>) x = py_json_loads env x"
  by (simp_all add: py_json_loads_def split: pyval.splits)

lemma parse_body_frame [simp]:
  "parse_body (env\<lparr>delete_object := d\<rparr>) event = parse_body env event"
  "parse_body (env\<lparr>requests_post := f\<rparr>) event = parse_body env event"
  by (simp_all add: parse_body_def split: sum.splits)

lemma format_value_frame [simp]:
  "format_value (env\<lparr>delete_object := d\<rparr>) v = format_value env v"
  "format_value (env\<lparr>requests_post := f\<rparr>) v = format_value env v"
  by (simp_all add: format_value_def split: pyval.splits)

lemma upload_frame [simp]:
  "upload (env\<lparr>delete_object := d\<rparr>) k p = upload env k p"
  "upload (env\<lparr>requests_post := f\<rparr>) k p = upload env k p"
  by (simp_all add: upload_def split: option.splits sum.splits)

lemma paginate_frame [simp]:
  "paginate fuel (env\<lparr>delete_object := d\<rparr>) j js c tok acc = paginate fuel env j js c tok acc"
  "paginate fuel (env\<lparr>requests_post := f\<rparr>) j js c tok acc = paginate fuel env j js c tok acc"
  by (induction fuel arbitrary: c tok acc) (simp_all split: sum.splits)

lemma poll_attempts_frame [simp]:
  "poll_attempts fuel (env\<lparr>delete_object := d\<rparr>) j as = poll_attempts fuel env j as"
  "poll_attempts fuel (env\<lparr>requests_post := f\<rparr>) j as = poll_attempts fuel env j as"
  by (induction as) (simp_all split: sum.splits option.splits)

lemma polling_starts_frame [simp]:
  "polling_starts (env\<lparr>delete_object := d\<rparr>) event q j tr = polling_starts env event q j tr"
  "polling_starts (env\<lparr>requests_post := f\<rparr>) event q j tr = polling_starts env event q j tr"
  by (simp_all add: polling_starts_def pdf_key_of_def split: sum.splits prod.splits)

lemma inference_body_delete_failure:
  assumes "exn_class_of e = ClientError"
  shows "fst (inference_body (env\<lparr>delete_object := (\<lambda>bucket key. Some e)\<rparr>) k q t) =
         fst (inference_body (env\<lparr>delete_object := (\<lambda>bucket key. None)\<rparr>) k q t)"
  using assms
  by (simp add: inference_body_def Let_def delete_pdf_def split: sum.splits)

lemma inference_stage_delete_failure:
  assumes "exn_class_of e = ClientError"
  shows "fst (inference_stage (env\<lparr>delete_object := (\<lambda>bucket key. Some e)\<rparr>) k q t) =
         fst (inference_stage (env\<lparr>delete_object := (\<lambda>bucket key. None)\<rparr>) k q t)"
proof -
  have "fst (inference_stage env' k q t) =
      (case fst (inference_body env' k q t) of
         Raise x \<Rightarrow> if exn_class_of x = RequestException
                     then Return (create_error_response 500
                            (''Error calling Hugging Face API: '' @ exn_str x) None)
                     else Raise x
       | other \<Rightarrow> other)" for env'
    by (cases "inference_body env' k q t")
      (auto simp: inference_stage_def split: flow.splits)
  then show ?thesis
    by (simp add: inference_body_delete_failure [OF assms])
qed

lemma textract_body_delete_failure:
  assumes "exn_class_of e = ClientError"
  shows "fst (textract_body fuel (env\<lparr>delete_object := (\<lambda>bucket key. Some e)\<rparr>) k q) =
         fst (textract_body fuel (env\<lparr>delete_object := (\<lambda>bucket key. None)\<rparr>) k q)"
  using inference_stage_delete_failure [OF assms, of env k q]
  by (simp add: textract_body_def split: option.splits sum.splits prod.splits)

lemma textract_stage_delete_failure:
  assumes "exn_class_of e = ClientError"
  shows "fst (textract_stage fuel (env\<lparr>delete_object := (\<lambda>bucket key. Some e)\<rparr>) k q) =
         fst (textract_stage fuel (env\<lparr>delete_object := (\<lambda>bucket key. None)\<rparr>) k q)"
proof -
  have "fst (textract_stage fuel env' k q) =
      (case fst (textract_body fuel env' k q) of
         Raise x \<Rightarrow> Return (create_error_response 500
                       (''Textract processing error: '' @ exn_str x) None)
       | other \<Rightarrow> other)" for env'
    by (cases "textract_body fuel env' k q")
      (auto simp: textract_stage_def split: flow.splits)
  then show ?thesis
    by (simp add: textract_body_delete_failure [OF assms])
qed

lemma handler_body_delete_failure:
  assumes "exn_class_of e = ClientError"
  shows "fst (handler_body fuel (env\<lparr>delete_object := (\<lambda>bucket key. Some e)\<rparr>) event) =
         fst (handler_body fuel (env\<lparr>delete_object := (\<lambda>bucket key. None)\<rparr>) event)"
  using textract_stage_delete_failure [OF assms, of fuel env]
  by (simp add: handler_body_def Let_def split: sum.splits prod.splits)

lemma lambda_handler_delete_failure:
  assumes "exn_class_of e = ClientError"
  shows "fst (lambda_handler fuel (env\<lparr>delete_object := (\<lambda>bucket key. Some e)\<rparr>) event) =
         fst (lambda_handler fuel (env\<lparr>delete_object := (\<lambda>bucket key. None)\<rparr>) event)"
proof -
  have "fst (lambda_handler fuel env' event) =
      (case fst (handler_body fuel env' event) of
         Return r \<Rightarrow> Some r
       | Raise x \<Rightarrow> Some (create_error_response 500 (''Unexpected error: '' @ exn_str x) None)
       | Diverge \<Rightarrow> None)" for env'
    by (cases "handler_body fuel env' event")
      (auto simp: lambda_handler_def split: flow.splits)
  then show ?thesis
    by (simp add: handler_body_delete_failure [OF assms])
qed

lemma inference_body_logged:
  assumes "delete_object env bucket_name k = Some e" and "exn_class_of e = ClientError"
    and "fst (inference_body env k q t) = Return r" and "statusCode r = 200"
  shows "delete_failure_log e \<in> set (snd (inference_body env k q t))"
  using assms
  by (auto simp: inference_body_def Let_def delete_pdf_def delete_failure_log_def
      split: sum.splits if_splits)

lemma inference_stage_logged:
  assumes "delete_object env bucket_name k = Some e" and "exn_class_of e = ClientError"
    and "fst (inference_stage env k q t) = Return r" and "statusCode r = 200"
  shows "delete_failure_log e \<in> set (snd (inference_stage env k q t))"
proof -
  obtain fl tr where b: "inference_body env k q t = (fl, tr)"
    by (cases "inference_body env k q t")
  show ?thesis
  proof (cases fl)
    case (Return r')
    with b assms(3) have "r' = r" by (simp add: inference_stage_def)
    with b Return inference_body_logged [OF assms(1,2) _ assms(4), of q t] show ?thesis
      by (simp add: inference_stage_def)
  next
    case (Raise x)
    with b assms(3,4) show ?thesis
      by (auto simp: inference_stage_def split: if_splits)
  next
    case Diverge
    with b assms(3) show ?thesis by (simp add: inference_stage_def)
  qed
qed

lemma poll_attempts_status:
  "fst (poll_attempts fuel env j as) = Inl (Return r) \<Longrightarrow> statusCode r = 500"
proof (induction as)
  case Nil
  then show ?case by simp
next
  case (Cons a as)
  show ?case
  proof (cases "get_document_text_detection env a j None")
    case (Inl e)
    with Cons.prems show ?thesis by simp
  next
    case (Inr js)
    show ?thesis
    proof (cases "JobStatus js")
      case None
      with Inr Cons.prems show ?thesis by simp
    next
      case (Some st)
      consider "st = ''SUCCEEDED''" | "st \<noteq> ''SUCCEEDED''" "st = ''FAILED''"
        | "st \<noteq> ''SUCCEEDED''" "st \<noteq> ''FAILED''" by blast
      then show ?thesis
      proof cases
        case 1
        obtain res tr where pg: "paginate fuel env j js (Suc a) None [] = (res, tr)"
          by (cases "paginate fuel env j js (Suc a) None []")
        with paginate_no_return [of fuel env j js "Suc a" None "[]" r]
        have "res \<noteq> Inl (Return r)" by simp
        with 1 Inr Some pg Cons.prems show ?thesis by (cases res) simp_all
      next
        case 2
        with Inr Some Cons.prems show ?thesis by auto
      next
        case 3
        with Inr Some Cons.prems have "fst (poll_attempts fuel env j as) = Inl (Return r)"
          by simp
        then show ?thesis by (rule Cons.IH)
      qed
    qed
  qed
qed

lemma textract_body_logged:
  assumes "delete_object env bucket_name k = Some e" and "exn_class_of e = ClientError"
    and "fst (textract_body fuel env k q) = Return r" and "statusCode r = 200"
  shows "delete_failure_log e \<in> set (snd (textract_body fuel env k q))"
proof -
  from assms(3) obtain sr j where c: "boto3_client env ''textract'' = None"
    and s: "start_document_text_detection env bucket_name k = Inr sr"
    and j: "JobId sr = Some j"
    by (auto simp: textract_body_def split: option.splits sum.splits)
  obtain res tr where pa: "poll_attempts fuel env j [0..<max_retries] = (res, tr)"
    by (cases "poll_attempts fuel env j [0..<max_retries]")
  show ?thesis
  proof (cases res)
    case (Inl fl)
    with c s j pa assms(3) have "fst (poll_attempts fuel env j [0..<max_retries]) = Inl (Return r)"
      by (simp add: textract_body_def)
    then have "statusCode r = 500" by (rule poll_attempts_status)
    with assms(4) show ?thesis by simp
  next
    case (Inr t)
    show ?thesis
    proof (cases "t = []")
      case True
      with c s j pa Inr assms(3,4) show ?thesis by (auto simp: textract_body_def)
    next
      case False
      with c s j pa Inr assms(3) have "fst (inference_stage env k q t) = Return r"
        by (simp add: textract_body_def)
      from inference_stage_logged [OF assms(1,2) this assms(4)] c s j pa Inr False
      show ?thesis by (simp add: textract_body_def)
    qed
  qed
qed

lemma textract_stage_logged:
  assumes "delete_object env bucket_name k = Some e" and "exn_class_of e = ClientError"
    and "fst (textract_stage fuel env k q) = Return r" and "statusCode r = 200"
  shows "delete_failure_log e \<in> set (snd (textract_stage fuel env k q))"
proof -
  obtain fl tr where b: "textract_body fuel env k q = (fl, tr)"
    by (cases "textract_body fuel env k q")
  show ?thesis
  proof (cases fl)
    case (Return r')
    with b assms(3) have "r' = r" by (simp add: textract_stage_def)
    with b Return textract_body_logged [OF assms(1,2) _ assms(4), of fuel q] show ?thesis
      by (simp add: textract_stage_def)
  next
    case (Raise x)
    with b assms(3,4) show ?thesis by (auto simp: textract_stage_def)
  next
    case Diverge
    with b assms(3) show ?thesis by (simp add: textract_stage_def)
  qed
qed

lemma parse_body_status: "parse_body env event = Inl (Return r) \<Longrightarrow> statusCode r = 400"
  by (auto simp: parse_body_def split: sum.splits if_splits)

lemma validate_status: "validate b = Inl (Return r) \<Longrightarrow> statusCode r = 400"
  by (auto simp: validate_def Let_def split: sum.splits if_splits)

lemma upload_status: "fst (upload env k p) = Inl (Return r) \<Longrightarrow> statusCode r = 500"
  by (auto simp: upload_def upload_except_def split: sum.splits if_splits option.splits)

lemma handler_body_logged:
  assumes "\<And>bucket key. delete_object env bucket key = Some e"
    and "exn_class_of e = ClientError"
    and "fst (handler_body fuel env event) = Return r" and "statusCode r = 200"
  shows "delete_failure_log e \<in> set (snd (handler_body fuel env event))"
proof (cases "parse_body env event")
  case (Inl fl)
  with assms(3,4) show ?thesis
    by (auto simp: handler_body_def dest: parse_body_status)
next
  case (Inr b)
  show ?thesis
  proof (cases "validate b")
    case (Inl fl)
    with Inr assms(3,4) show ?thesis
      by (auto simp: handler_body_def dest: validate_status)
  next
    case v: (Inr pq)
    obtain p q where pq: "pq = (p, q)" by (cases pq)
    obtain res tr where u: "upload env (''uploads/'' @ uuid4 env @ ''.pdf'') p = (res, tr)"
      by (cases "upload env (''uploads/'' @ uuid4 env @ ''.pdf'') p")
    show ?thesis
    proof (cases res)
      case (Inl fl)
      with Inr v pq u assms(3)
      have "fst (upload env (''uploads/'' @ uuid4 env @ ''.pdf'') p) = Inl (Return r)"
        by (simp add: handler_body_def)
      then have "statusCode r = 500" by (rule upload_status)
      with assms(4) show ?thesis by simp
    next
      case x: (Inr x)
      with Inr v pq u assms(3)
      have "fst (textract_stage fuel env (''uploads/'' @ uuid4 env @ ''.pdf'') q) = Return r"
        by (simp add: handler_body_def)
      from textract_stage_logged [OF assms(1,2) this assms(4)] Inr v pq u x
      show ?thesis by (simp add: handler_body_def)
    qed
  qed
qed

lemma lambda_handler_logged:
  assumes "\<And>bucket key. delete_object env bucket key = Some e"
    and "exn_class_of e = ClientError"
    and "fst (lambda_handler fuel env event) = Some r" and "statusCode r = 200"
  shows "delete_failure_log e \<in> set (snd (lambda_handler fuel env event))"
proof -
  obtain fl tr where b: "handler_body fuel env event = (fl, tr)"
    by (cases "handler_body fuel env event")
  show ?thesis
  proof (cases fl)
    case (Return r')
    with b assms(3) have "r' = r" by (simp add: lambda_handler_def)
    with b Return handler_body_logged [OF assms(1,2) _ assms(4), of fuel event] show ?thesis
      by (simp add: lambda_handler_def)
  next
    case (Raise x)
    with b assms(3,4) show ?thesis by (auto simp: lambda_handler_def)
  next
    case Diverge
    with b assms(3) show ?thesis by (simp add: lambda_handler_def)
  qed
qed

lemma demo_requests_post [simp]:
  "requests_post (demo_env ocr) url prompt = Inr (demo_reply prompt)"
  by (simp add: demo_env_def)

lemma demo_pdf_key [simp]:
  "pdf_key_of (demo_env ocr) = ''uploads/3f2b8c1e-0d4a-4c6e-9b1a-7e5d2f0a6c11.pdf''"
  "pdf_key_of (env\<lparr>delete_object := d\<rparr>) = pdf_key_of env"
  "pdf_key_of (env\<lparr>requests_post := f\<rparr>) = pdf_key_of env"
  by (simp_all add: pdf_key_of_def)

lemma prompt_of_frame [simp]:
  "prompt_of (env\<lparr>delete_object := d\<rparr>) q t = prompt_of env q t"
  "prompt_of (env\<lparr>requests_post := f\<rparr>) q t = prompt_of env q t"
  by (simp_all add: prompt_of_def)

lemma demo_prompt_of [simp]:
  "prompt_of (demo_env ocr) (PStr ''Why?'') demo_text = demo_prompt"
  by (simp add: prompt_of_def demo_prompt_def demo_text_def max_context_length_def
      format_value_def)

lemma demo_poll_text:
  "fst (poll_attempts 2 (demo_env ocr_two_pages) ''job-1'' [0..<max_retries]) = Inr demo_text"
proof -
  have "extracted_text [demo_page ''SUCCEEDED'' [''Alpha'', ''Beta''] (Some ''t1''),
      demo_page ''SUCCEEDED'' [''Gamma''] None] = demo_text"
    by (simp add: extracted_text_def line_texts_def demo_page_def demo_text_def)
  with poll_attempts_succeeds [OF demo_two_pages, of 2] show ?thesis by simp
qed

lemma demo_text_nonempty: "demo_text \<noteq> []"
  by (simp add: demo_text_def)

lemma demo_candidate:
  "answer_candidate (PList [PDict [(''generated_text'', PStr g)]]) =
     Some (PDict [(''generated_text'', PStr g)])"
  "generated_text_field [(''generated_text'', PStr g)] = PStr g"
  by (simp_all add: answer_candidate_def generated_text_field_def)

lemma demo_strip: "py_strip '' Because. '' = ''Because.''"
  by (simp add: py_strip_def isspace_def)

lemma demo_no_echo: "\<not> sublist demo_prompt '' Because. ''"
proof
  assume "sublist demo_prompt '' Because. ''"
  then have "length demo_prompt \<le> length '' Because. ''" by (rule sublist_length_le)
  then show False by (simp add: demo_prompt_def build_prompt_def)
qed

lemma demo_prompt_nonempty: "demo_prompt \<noteq> []"
  by (simp add: demo_prompt_def build_prompt_nonempty)

lemma demo_clean: "py_strip (py_replace (demo_prompt @ '' Because. '') demo_prompt []) = ''Because.''"
  using py_replace_echo [OF demo_prompt_nonempty demo_no_echo] by (simp add: demo_strip)

lemma poll_pair: "fst x = a \<Longrightarrow> x = (a, snd x)"
  by (cases x) simp

lemma demo_run_contained:
  assumes "deletion_contained ((demo_env ocr_two_pages)\<lparr>delete_object := d\<rparr>)
             ''uploads/3f2b8c1e-0d4a-4c6e-9b1a-7e5d2f0a6c11.pdf''"
  shows "fst (lambda_handler 2 ((demo_env ocr_two_pages)\<lparr>delete_object := d\<rparr>) demo_event) =
     Some (success_response (PStr ''Why?'') ''Because.'' demo_text)"
proof -
  let ?env = "(demo_env ocr_two_pages)\<lparr>delete_object := d\<rparr>"
  have s: "polling_starts ?env demo_event (PStr ''Why?'') ''job-1'' demo_prefix"
    by (simp add: demo_polling_starts)
  have p: "poll_attempts 2 ?env ''job-1'' [0..<max_retries] =
      (Inr demo_text, snd (poll_attempts 2 (demo_env ocr_two_pages) ''job-1'' [0..<max_retries]))"
    using poll_pair [OF demo_poll_text] by simp
  have r: "requests_post ?env api_url (prompt_of ?env (PStr ''Why?'') demo_text) =
      Inr (demo_reply demo_prompt)"
    by simp
  have c: "status_code (demo_reply demo_prompt) = 200"
    by (simp add: demo_reply_def)
  have j: "resp_json (demo_reply demo_prompt) =
      Inr (PList [PDict [(''generated_text'', PStr (demo_prompt @ '' Because. ''))]])"
    by (simp add: demo_reply_def)
  from assms have dc: "deletion_contained ?env (pdf_key_of ?env)" by simp
  have i: "inference_stage ?env (pdf_key_of ?env) (PStr ''Why?'') demo_text =
     (Return (success_response (PStr ''Why?'')
        (py_strip (py_replace (demo_prompt @ '' Because. '') (prompt_of ?env (PStr ''Why?'') demo_text) []))
        demo_text),
      inference_log (prompt_of ?env (PStr ''Why?'') demo_text) (demo_reply demo_prompt) @
      snd (delete_pdf ?env (pdf_key_of ?env)))"
    by (rule inference_answer [OF r c j demo_candidate(1) demo_candidate(2) dc])
  from handler_from_text [OF s p demo_text_nonempty] i show ?thesis
    by (simp add: reported_def demo_clean)
qed

lemma demo_run_delete_raises:
  assumes "exn_class_of e \<noteq> ClientError" and "exn_class_of e \<noteq> RequestException"
  shows "fst (lambda_handler 2
            ((demo_env ocr_two_pages)\<lparr>delete_object := (\<lambda>bucket key. Some e)\<rparr>) demo_event) =
     Some (create_error_response 500 (''Textract processing error: '' @ exn_str e) None)"
proof -
  let ?env = "(demo_env ocr_two_pages)\<lparr>delete_object := (\<lambda>bucket key. Some e)\<rparr>"
  have s: "polling_starts ?env demo_event (PStr ''Why?'') ''job-1'' demo_prefix"
    by (simp add: demo_polling_starts)
  have p: "poll_attempts 2 ?env ''job-1'' [0..<max_retries] =
      (Inr demo_text, snd (poll_attempts 2 (demo_env ocr_two_pages) ''job-1'' [0..<max_retries]))"
    using poll_pair [OF demo_poll_text] by simp
  have "fst (inference_body ?env (pdf_key_of ?env) (PStr ''Why?'') demo_text) = Raise e"
    using assms
    by (simp add: inference_body_def Let_def prompt_of_def [symmetric] demo_reply_def
        extract_answer_def py_get_def clean_answer_def delete_pdf_def)
  with assms have "fst (inference_stage ?env (pdf_key_of ?env) (PStr ''Why?'') demo_text) = Raise e"
    by (cases "inference_body ?env (pdf_key_of ?env) (PStr ''Why?'') demo_text")
      (simp add: inference_stage_def)
  with handler_from_text [OF s p demo_text_nonempty] show ?thesis
    by (cases "inference_stage ?env (pdf_key_of ?env) (PStr ''Why?'') demo_text")
      (simp add: reported_def)
qed

lemma inference_body_empty_list:
  assumes "requests_post env api_url (prompt_of env question t) = Inr api_response"
    and "status_code api_response = 200"
    and "resp_json api_response = Inr (PList [])"
  shows "fst (inference_body env k question t) = Raise (Exn IndexError ''list index out of range'')"
  using assms
  by (simp add: inference_body_def Let_def prompt_of_def [symmetric] extract_answer_def)

lemma inference_body_json_raises:
  assumes "requests_post env api_url (prompt_of env question t) = Inr api_response"
    and "status_code api_response = 200"
    and "resp_json api_response = Inl e"
  shows "fst (inference_body env k question t) = Raise e"
  using assms
  by (simp add: inference_body_def Let_def prompt_of_def [symmetric])

lemma handler_inference_raises:
  assumes "polling_starts env event question job_id tr0"
    and "poll_attempts fuel env job_id [0..<max_retries] = (Inr t, tr1)"
    and "t \<noteq> []"
    and "fst (inference_body env (pdf_key_of env) question t) = Raise e"
    and "exn_class_of e \<noteq> RequestException"
  shows "fst (lambda_handler fuel env event) =
     Some (create_error_response 500 (''Textract processing error: '' @ exn_str e) None)"
proof -
  from assms(4,5)
  have "fst (inference_stage env (pdf_key_of env) question t) = Raise e"
    by (cases "inference_body env (pdf_key_of env) question t")
      (simp add: inference_stage_def)
  with handler_from_text [OF assms(1-3)] show ?thesis
    by (cases "inference_stage env (pdf_key_of env) question t")
      (simp add: reported_def)
qed

lemma handler_inference_request_exception:
  assumes "polling_starts env event question job_id tr0"
    and "poll_attempts fuel env job_id [0..<max_retries] = (Inr t, tr1)"
    and "t \<noteq> []"
    and "fst (inference_body env (pdf_key_of env) question t) = Raise e"
    and "exn_class_of e = RequestException"
  shows "fst (lambda_handler fuel env event) =
     Some (create_error_response 500 (''Error calling Hugging Face API: '' @ exn_str e) None)"
proof -
  from assms(4,5)
  have "fst (inference_stage env (pdf_key_of env) question t) =
      Return (create_error_response 500 (''Error calling Hugging Face API: '' @ exn_str e) None)"
    by (cases "inference_body env (pdf_key_of env) question t")
      (simp add: inference_stage_def)
  with handler_from_text [OF assms(1-3)] show ?thesis
    by (cases "inference_stage env (pdf_key_of env) question t")
      (simp add: reported_def)
qed

subsection \<open>The handler returns\<close>

lemma paginate_fetch_returns:
  assumes "pagination_bounded env N" and "truthy_str tok" and "1 \<le> fuel" and "N + 1 \<le> c + fuel"
  shows "fst (paginate fuel env j js c tok acc) \<noteq> Inl Diverge"
  using assms(2-)
proof (induction fuel arbitrary: c tok acc)
  case 0
  then show ?case by simp
next
  case (Suc fuel)
  show ?case
  proof (cases "get_document_text_detection env c j tok")
    case (Inl e)
    with Suc.prems(1) show ?thesis by simp
  next
    case (Inr p)
    show ?thesis
    proof (cases "truthy_str (NextToken p)")
      case False
      with Inr Suc.prems(1) show ?thesis by simp
    next
      case True
      with Inr assms(1) have "c < N"
        unfolding pagination_bounded_def by (meson not_le_imp_less)
      with Suc.prems(3) have "1 \<le> fuel" and "N + 1 \<le> Suc c + fuel" by simp_all
      from Suc.IH [OF True this] Inr True Suc.prems(1) show ?thesis by simp
    qed
  qed
qed

lemma paginate_returns:
  assumes "pagination_bounded env N" and "N + 2 \<le> fuel"
  shows "fst (paginate fuel env j js c None acc) \<noteq> Inl Diverge"
proof -
  from assms(2) obtain f where f: "fuel = Suc f" and f1: "1 \<le> f" and fN: "N + 1 \<le> c + f"
    by (cases fuel) auto
  show ?thesis
  proof (cases "truthy_str (NextToken js)")
    case False
    then show ?thesis by (simp add: f)
  next
    case True
    from paginate_fetch_returns [OF assms(1) True f1 fN] True show ?thesis
      by (simp add: f)
  qed
qed

lemma poll_attempts_returns:
  assumes "pagination_bounded env N" and "N + 2 \<le> fuel"
  shows "fst (poll_attempts fuel env j as) \<noteq> Inl Diverge"
proof (induction as)
  case Nil
  show ?case by simp
next
  case (Cons a as)
  show ?case
  proof (cases "get_document_text_detection env a j None")
    case (Inl e)
    then show ?thesis by simp
  next
    case (Inr js)
    show ?thesis
    proof (cases "JobStatus js")
      case None
      with Inr show ?thesis by simp
    next
      case (Some st)
      consider "st = ''SUCCEEDED''" | "st \<noteq> ''SUCCEEDED''" "st = ''FAILED''"
        | "st \<noteq> ''SUCCEEDED''" "st \<noteq> ''FAILED''" by blast
      then show ?thesis
      proof cases
        case 1
        obtain res tr where pg: "paginate fuel env j js (Suc a) None [] = (res, tr)"
          by (cases "paginate fuel env j js (Suc a) None []")
        with paginate_returns [OF assms, of j js "Suc a" "[]"]
        have "res \<noteq> Inl Diverge" by simp
        with 1 Inr Some pg show ?thesis by (cases res) simp_all
      next
        case 2
        with Inr Some show ?thesis by simp
      next
        case 3
        with Inr Some Cons.IH show ?thesis by simp
      qed
    qed
  qed
qed

lemma inference_body_returns: "fst (inference_body env k q t) \<noteq> Diverge"
  by (auto simp: inference_body_def Let_def delete_pdf_def
      split: sum.splits option.splits if_splits)

lemma inference_stage_returns: "fst (inference_stage env k q t) \<noteq> Diverge"
  using inference_body_returns [of env k q t]
  by (cases "inference_body env k q t")
    (auto simp: inference_stage_def split: flow.splits)

lemma textract_body_returns:
  assumes "pagination_bounded env N" and "N + 2 \<le> fuel"
  shows "fst (textract_body fuel env k q) \<noteq> Diverge"
proof (cases "boto3_client env ''textract''")
  case (Some e)
  then show ?thesis by (simp add: textract_body_def)
next
  case None
  show ?thesis
  proof (cases "start_document_text_detection env bucket_name k")
    case (Inl e)
    with None show ?thesis by (simp add: textract_body_def)
  next
    case (Inr sr)
    show ?thesis
    proof (cases "JobId sr")
      case n: None
      with None Inr show ?thesis by (simp add: textract_body_def)
    next
      case (Some j)
      obtain res tr where pa: "poll_attempts fuel env j [0..<max_retries] = (res, tr)"
        by (cases "poll_attempts fuel env j [0..<max_retries]")
      with poll_attempts_returns [OF assms, of j "[0..<max_retries]"]
      have nd: "res \<noteq> Inl Diverge" by simp
      show ?thesis
      proof (cases res)
        case (Inl fl)
        with None Inr Some pa nd show ?thesis by (simp add: textract_body_def)
      next
        case r: (Inr t)
        with None Inr Some pa inference_stage_returns [of env k q t] show ?thesis
          by (simp add: textract_body_def)
      qed
    qed
  qed
qed

lemma textract_stage_returns:
  assumes "pagination_bounded env N" and "N + 2 \<le> fuel"
  shows "fst (textract_stage fuel env k q) \<noteq> Diverge"
  using textract_body_returns [OF assms, of k q]
  by (cases "textract_body fuel env k q")
    (auto simp: textract_stage_def split: flow.splits)

lemma parse_body_returns: "parse_body env event \<noteq> Inl Diverge"
  by (auto simp: parse_body_def split: sum.splits)

lemma validate_returns: "validate b \<noteq> Inl Diverge"
  by (auto simp: validate_def Let_def split: sum.splits)

lemma upload_returns: "fst (upload env k p) \<noteq> Inl Diverge"
  by (auto simp: upload_def upload_except_def split: sum.splits option.splits)

lemma handler_body_returns:
  assumes "pagination_bounded env N" and "N + 2 \<le> fuel"
  shows "fst (handler_body fuel env event) \<noteq> Diverge"
proof (cases "parse_body env event")
  case (Inl fl)
  with parse_body_returns [of env event] show ?thesis
    by (auto simp: handler_body_def)
next
  case (Inr b)
  show ?thesis
  proof (cases "validate b")
    case (Inl fl)
    with Inr validate_returns [of b] show ?thesis
      by (auto simp: handler_body_def)
  next
    case v: (Inr pq)
    obtain p q where pq: "pq = (p, q)" by (cases pq)
    obtain res tr where u: "upload env (''uploads/'' @ uuid4 env @ ''.pdf'') p = (res, tr)"
      by (cases "upload env (''uploads/'' @ uuid4 env @ ''.pdf'') p")
    show ?thesis
    proof (cases res)
      case (Inl fl)
      with Inr v pq u upload_returns [of env "''uploads/'' @ uuid4 env @ ''.pdf''" p]
      show ?thesis by (auto simp: handler_body_def)
    next
      case x: (Inr x)
      with Inr v pq u textract_stage_returns [OF assms, of "''uploads/'' @ uuid4 env @ ''.pdf''" q]
      show ?thesis by (simp add: handler_body_def)
    qed
  qed
qed

lemma demo_bounded: "pagination_bounded (demo_env ocr_two_pages) 3"
  by (simp add: pagination_bounded_def ocr_two_pages_def demo_page_def)

lemma demo_list_body_raises:
  "handler_body fuel (demo_env ocr) (event_with_body ''[]'') =
     (Raise (no_attribute (PList []) ''get''),
      [Log INFO (''Incoming event: '' @ json_dumps (event_with_body ''[]''))])"
proof -
  have p: "parse_body (demo_env ocr) (event_with_body ''[]'') = Inr (PList [])"
    by (simp add: parse_demo_body demo_loads_def demo_request_def)
  have v: "validate (PList []) = Inl (Raise (no_attribute (PList []) ''get''))"
    by (simp add: validate_def py_get_def)
  from p v show ?thesis by (simp add: handler_body_def)
qed

lemma demo_endless_paginate:
  "fst (paginate fuel (demo_env ocr_endless) j
          (demo_page ''SUCCEEDED'' [''More''] (Some ''next'')) c tok acc) = Inl Diverge"
proof (induction fuel arbitrary: c tok acc)
  case 0
  show ?case by simp
next
  case (Suc fuel)
  show ?case
  proof (cases "truthy_str tok")
    case True
    with Suc.IH show ?thesis
      by (simp add: ocr_endless_def demo_page_def)
  next
    case False
    with Suc.IH show ?thesis
      by (simp add: ocr_endless_def demo_page_def)
  qed
qed

lemma demo_endless_poll:
  "fst (poll_attempts fuel (demo_env ocr_endless) j [0..<max_retries]) = Inl Diverge"
proof -
  have u: "[0..<max_retries] = 0 # [Suc 0..<max_retries]"
    by (simp add: max_retries_def upt_conv_Cons)
  obtain res tr where pg: "paginate fuel (demo_env ocr_endless) j
      (demo_page ''SUCCEEDED'' [''More''] (Some ''next'')) (Suc 0) None [] = (res, tr)"
    by (cases "paginate fuel (demo_env ocr_endless) j
      (demo_page ''SUCCEEDED'' [''More''] (Some ''next'')) (Suc 0) None []")
  with demo_endless_paginate [of fuel j "Suc 0" None "[]"] have "res = Inl Diverge" by simp
  with pg have "fst (poll_attempts fuel (demo_env ocr_endless) j (0 # [Suc 0..<max_retries])) =
      Inl Diverge"
    by (simp add: ocr_endless_def demo_page_def)
  with u show ?thesis by simp
qed

lemma demo_endless_run: "fst (lambda_handler fuel (demo_env ocr_endless) demo_event) = None"
proof -
  obtain res tr where p: "poll_attempts fuel (demo_env ocr_endless) ''job-1'' [0..<max_retries] =
      (res, tr)"
    by (cases "poll_attempts fuel (demo_env ocr_endless) ''job-1'' [0..<max_retries]")
  with demo_endless_poll [of fuel "''job-1''"] have "res = Inl Diverge" by simp
  with p handler_from_polling [OF demo_polling_starts [of ocr_endless], of fuel] show ?thesis
    by (simp add: after_polling_def reported_def)
qed

lemma demo_endless_unbounded: "\<not> pagination_bounded (demo_env ocr_endless) N"
  by (auto simp: pagination_bounded_def ocr_endless_def demo_page_def)

subsection \<open>The answer\<close>

text \<open>
  C6: in a run that reaches the inference stage, when the endpoint answers 200 with JSON
  whose candidate (the first element of a sequence, the response itself otherwise) is an
  object and whose generated text (the field \<^verbatim>\<open>generated_text\<close>, the placeholder
  \<^verbatim>\<open>No answer found\<close> when the field is absent) is a string, the answer of the 200
  response is that string with the prompt removed and the surrounding whitespace
  trimmed: a string without the prompt is only trimmed, an echoed prompt in front of the
  answer is cut off, and the answer neither begins nor ends with whitespace.
\<close>

theorem answer_post_processed:
  assumes "polling_starts env event question job_id tr0"
    and "poll_attempts fuel env job_id [0..<max_retries] = (Inr t, tr1)"
    and "t \<noteq> []"
    and "requests_post env api_url (prompt_of env question t) = Inr api_response"
    and "status_code api_response = 200"
    and "resp_json api_response = Inr response_data"
    and "answer_candidate response_data = Some (PDict kvs)"
    and "generated_text_field kvs = PStr generated"
    and "deletion_contained env (pdf_key_of env)"
    and "answer = py_strip (py_replace generated (prompt_of env question t) [])"
  shows "fst (lambda_handler fuel env event) = Some (success_response question answer t) \<and>
     (\<not> sublist (prompt_of env question t) generated \<longrightarrow> answer = py_strip generated) \<and>
     (\<forall>r. generated = prompt_of env question t @ r \<and> \<not> sublist (prompt_of env question t) r
          \<longrightarrow> answer = py_strip r) \<and>
     (answer \<noteq> [] \<longrightarrow> \<not> isspace (hd answer) \<and> \<not> isspace (last answer))"
proof -
  have ne: "prompt_of env question t \<noteq> []"
    by (simp add: prompt_of_def build_prompt_nonempty)
  have "fst (lambda_handler fuel env event) = Some (success_response question answer t)"
    using handler_from_text [OF assms(1-3)] inference_answer [OF assms(4-9)] assms(10)
    by (simp add: reported_def)
  moreover have "answer = py_strip generated" if "\<not> sublist (prompt_of env question t) generated"
    using that ne assms(10) by (simp add: py_replace_absent)
  moreover have "answer = py_strip r"
    if "generated = prompt_of env question t @ r" and "\<not> sublist (prompt_of env question t) r" for r
    using that ne assms(10) by (simp add: py_replace_echo)
  moreover have "\<not> isspace (hd answer) \<and> \<not> isspace (last answer)" if "answer \<noteq> []"
    using that py_strip_ends [of "py_replace generated (prompt_of env question t) []"] assms(10)
    by simp
  ultimately show ?thesis by blast
qed

text \<open>The run on two pages: the endpoint echoes the prompt before its answer.\<close>

theorem answer_post_processed_witness:
  "polling_starts (demo_env ocr_two_pages) demo_event (PStr ''Why?'') ''job-1'' demo_prefix \<and>
   fst (poll_attempts 2 (demo_env ocr_two_pages) ''job-1'' [0..<max_retries]) = Inr demo_text \<and>
   demo_text \<noteq> [] \<and>
   requests_post (demo_env ocr_two_pages) api_url
     (prompt_of (demo_env ocr_two_pages) (PStr ''Why?'') demo_text) = Inr (demo_reply demo_prompt) \<and>
   status_code (demo_reply demo_prompt) = 200 \<and>
   resp_json (demo_reply demo_prompt) =
     Inr (PList [PDict [(''generated_text'', PStr (demo_prompt @ '' Because. ''))]]) \<and>
   deletion_contained (demo_env ocr_two_pages) (pdf_key_of (demo_env ocr_two_pages)) \<and>
   \<not> sublist demo_prompt '' Because. '' \<and>
   fst (lambda_handler 2 (demo_env ocr_two_pages) demo_event) =
     Some (success_response (PStr ''Why?'') ''Because.'' demo_text)"
proof -
  let ?env = "demo_env ocr_two_pages"
  let ?kvs = "[(''generated_text'', PStr (demo_prompt @ '' Because. ''))]"
  have s: "polling_starts ?env demo_event (PStr ''Why?'') ''job-1'' demo_prefix"
    by (rule demo_polling_starts)
  have p: "poll_attempts 2 ?env ''job-1'' [0..<max_retries] =
      (Inr demo_text, snd (poll_attempts 2 ?env ''job-1'' [0..<max_retries]))"
    by (rule poll_pair [OF demo_poll_text])
  have r: "requests_post ?env api_url (prompt_of ?env (PStr ''Why?'') demo_text) =
      Inr (demo_reply demo_prompt)"
    by simp
  have c: "status_code (demo_reply demo_prompt) = 200"
    by (simp add: demo_reply_def)
  have j: "resp_json (demo_reply demo_prompt) = Inr (PList [PDict ?kvs])"
    by (simp add: demo_reply_def)
  have a: "answer_candidate (PList [PDict ?kvs]) = Some (PDict ?kvs)"
    by (rule demo_candidate)
  have g: "generated_text_field ?kvs = PStr (demo_prompt @ '' Because. '')"
    by (rule demo_candidate)
  have d: "deletion_contained ?env (pdf_key_of ?env)"
    by (simp add: deletion_contained_def)
  have e: "''Because.'' = py_strip (py_replace (demo_prompt @ '' Because. '')
      (prompt_of ?env (PStr ''Why?'') demo_text) [])"
    by (simp add: demo_clean)
  from answer_post_processed [OF s p demo_text_nonempty r c j a g d e]
    s demo_poll_text demo_text_nonempty r c j d demo_no_echo
  show ?thesis by simp
qed

subsection \<open>A failed deletion\<close>

text \<open>
  C7, as amended: a deletion that fails with a \<^verbatim>\<open>ClientError\<close> leaves the response
  what it is when the deletion succeeds, and a run that ends with status 200 has logged
  the failure.
\<close>

theorem deletion_failure_contained:
  assumes "exn_class_of e = ClientError"
  shows "fst (lambda_handler fuel (env\<lparr>delete_object := (\<lambda>bucket key. Some e)\<rparr>) event) =
       fst (lambda_handler fuel (env\<lparr>delete_object := (\<lambda>bucket key. None)\<rparr>) event) \<and>
     (\<forall>r. fst (lambda_handler fuel (env\<lparr>delete_object := (\<lambda>bucket key. Some e)\<rparr>) event) = Some r \<and>
          statusCode r = 200 \<longrightarrow>
          delete_failure_log e \<in>
            set (snd (lambda_handler fuel (env\<lparr>delete_object := (\<lambda>bucket key. Some e)\<rparr>) event)))"
proof -
  have "delete_failure_log e \<in>
      set (snd (lambda_handler fuel (env\<lparr>delete_object := (\<lambda>bucket key. Some e)\<rparr>) event))"
    if "fst (lambda_handler fuel (env\<lparr>delete_object := (\<lambda>bucket key. Some e)\<rparr>) event) = Some r"
      and "statusCode r = 200" for r
    by (rule lambda_handler_logged [OF _ assms that]) simp
  with lambda_handler_delete_failure [OF assms, of fuel env event] show ?thesis by blast
qed

text \<open>The run on two pages, the deletion being denied.\<close>

theorem deletion_failure_contained_witness:
  "exn_class_of access_denied = ClientError \<and>
   fst (lambda_handler 2 ((demo_env ocr_two_pages)\<lparr>delete_object := (\<lambda>bucket key. Some access_denied)\<rparr>)
          demo_event) =
     Some (success_response (PStr ''Why?'') ''Because.'' demo_text) \<and>
   statusCode (success_response (PStr ''Why?'') ''Because.'' demo_text) = 200 \<and>
   delete_failure_log access_denied \<in>
     set (snd (lambda_handler 2
       ((demo_env ocr_two_pages)\<lparr>delete_object := (\<lambda>bucket key. Some access_denied)\<rparr>) demo_event))"
proof -
  have c: "exn_class_of access_denied = ClientError"
    by (simp add: access_denied_def)
  have ok: "fst (lambda_handler 2 ((demo_env ocr_two_pages)\<lparr>delete_object := (\<lambda>bucket key. None)\<rparr>)
      demo_event) = Some (success_response (PStr ''Why?'') ''Because.'' demo_text)"
    by (rule demo_run_contained) (simp add: deletion_contained_def)
  have st: "statusCode (success_response (PStr ''Why?'') ''Because.'' demo_text) = 200"
    by (simp add: success_response_def)
  from deletion_failure_contained [OF c, of 2 "demo_env ocr_two_pages" demo_event] c ok st
  show ?thesis by simp
qed

text \<open>
  C7 as it is stated fails for a deletion that raises anything but a
  \<^verbatim>\<open>ClientError\<close>, such as a connection timeout: the run that returns 200 when the
  deletion succeeds returns 500 then.
\<close>

theorem deletion_failure_counterexample:
  "fst (lambda_handler 2 ((demo_env ocr_two_pages)\<lparr>delete_object := (\<lambda>bucket key. None)\<rparr>)
          demo_event) =
     Some (success_response (PStr ''Why?'') ''Because.'' demo_text) \<and>
   statusCode (success_response (PStr ''Why?'') ''Because.'' demo_text) = 200 \<and>
   fst (lambda_handler 2
          ((demo_env ocr_two_pages)\<lparr>delete_object := (\<lambda>bucket key. Some connect_timeout)\<rparr>)
          demo_event) =
     Some (create_error_response 500
             ''Textract processing error: Connect timeout on endpoint URL'' None) \<and>
   statusCode (create_error_response 500
             ''Textract processing error: Connect timeout on endpoint URL'' None) = 500"
proof -
  have ok: "fst (lambda_handler 2 ((demo_env ocr_two_pages)\<lparr>delete_object := (\<lambda>bucket key. None)\<rparr>)
      demo_event) = Some (success_response (PStr ''Why?'') ''Because.'' demo_text)"
    by (rule demo_run_contained) (simp add: deletion_contained_def)
  have st: "statusCode (success_response (PStr ''Why?'') ''Because.'' demo_text) = 200"
    by (simp add: success_response_def)
  have "exn_class_of connect_timeout \<noteq> ClientError"
    and "exn_class_of connect_timeout \<noteq> RequestException"
    by (simp_all add: connect_timeout_def)
  from demo_run_delete_raises [OF this] ok st show ?thesis
    by (simp add: connect_timeout_def)
qed

subsection \<open>Failures of the inference stage\<close>

text \<open>
  C10, as amended: in a run that reaches the inference stage, an exception of that stage
  that is not a \<^verbatim>\<open>RequestException\<close> is answered with status 500 and the message
  \<^verbatim>\<open>Textract processing error:\<close> followed by the text of the exception, and one that
  is a \<^verbatim>\<open>RequestException\<close> with \<^verbatim>\<open>Error calling Hugging Face API:\<close> and its
  text. A 200 answer that is an empty sequence raises the \<^verbatim>\<open>IndexError\<close>
  \<^verbatim>\<open>list index out of range\<close>, and a 200 answer whose \<^verbatim>\<open>json()\<close> raises raises
  that exception, whose class decides between the two messages.
\<close>

theorem inference_failure_labelled:
  assumes "polling_starts env event question job_id tr0"
    and "poll_attempts fuel env job_id [0..<max_retries] = (Inr t, tr1)"
    and "t \<noteq> []"
    and "fst (inference_body env (pdf_key_of env) question t) = Raise e"
  shows "(exn_class_of e \<noteq> RequestException \<longrightarrow>
        fst (lambda_handler fuel env event) =
          Some (create_error_response 500 (''Textract processing error: '' @ exn_str e) None)) \<and>
     (exn_class_of e = RequestException \<longrightarrow>
        fst (lambda_handler fuel env event) =
          Some (create_error_response 500
                  (''Error calling Hugging Face API: '' @ exn_str e) None)) \<and>
     (\<forall>api_response.
        requests_post env api_url (prompt_of env question t) = Inr api_response \<and>
        status_code api_response = 200 \<and> resp_json api_response = Inr (PList [])
        \<longrightarrow> e = Exn IndexError ''list index out of range'') \<and>
     (\<forall>api_response e'.
        requests_post env api_url (prompt_of env question t) = Inr api_response \<and>
        status_code api_response = 200 \<and> resp_json api_response = Inl e'
        \<longrightarrow> e = e')"
proof -
  have "e = Exn IndexError ''list index out of range''"
    if "requests_post env api_url (prompt_of env question t) = Inr api_response"
      and "status_code api_response = 200" and "resp_json api_response = Inr (PList [])"
    for api_response
    using inference_body_empty_list [OF that, of "pdf_key_of env"] assms(4) by simp
  moreover have "e = e'"
    if "requests_post env api_url (prompt_of env question t) = Inr api_response"
      and "status_code api_response = 200" and "resp_json api_response = Inl e'"
    for api_response e'
    using inference_body_json_raises [OF that, of "pdf_key_of env"] assms(4) by simp
  moreover have "fst (lambda_handler fuel env event) =
      Some (create_error_response 500 (''Textract processing error: '' @ exn_str e) None)"
    if "exn_class_of e \<noteq> RequestException"
    using handler_inference_raises [OF assms that] .
  moreover have "fst (lambda_handler fuel env event) =
      Some (create_error_response 500 (''Error calling Hugging Face API: '' @ exn_str e) None)"
    if "exn_class_of e = RequestException"
    using handler_inference_request_exception [OF assms that] .
  ultimately show ?thesis by blast
qed

text \<open>The run on two pages, the endpoint answering with an empty sequence.\<close>

theorem inference_failure_labelled_witness:
  "polling_starts ((demo_env ocr_two_pages)\<lparr>requests_post := (\<lambda>url prompt. Inr empty_reply)\<rparr>)
     demo_event (PStr ''Why?'') ''job-1'' demo_prefix \<and>
   fst (poll_attempts 2 ((demo_env ocr_two_pages)\<lparr>requests_post := (\<lambda>url prompt. Inr empty_reply)\<rparr>)
          ''job-1'' [0..<max_retries]) = Inr demo_text \<and>
   demo_text \<noteq> [] \<and>
   status_code empty_reply = 200 \<and> resp_json empty_reply = Inr (PList []) \<and>
   fst (inference_body ((demo_env ocr_two_pages)\<lparr>requests_post := (\<lambda>url prompt. Inr empty_reply)\<rparr>)
          (pdf_key_of (demo_env ocr_two_pages)) (PStr ''Why?'') demo_text) =
     Raise (Exn IndexError ''list index out of range'') \<and>
   exn_class_of (Exn IndexError ''list index out of range'') \<noteq> RequestException \<and>
   fst (lambda_handler 2 ((demo_env ocr_two_pages)\<lparr>requests_post := (\<lambda>url prompt. Inr empty_reply)\<rparr>)
          demo_event) =
     Some (create_error_response 500
             ''Textract processing error: list index out of range'' None)"
proof -
  let ?env = "(demo_env ocr_two_pages)\<lparr>requests_post := (\<lambda>url prompt. Inr empty_reply)\<rparr>"
  have s: "polling_starts ?env demo_event (PStr ''Why?'') ''job-1'' demo_prefix"
    by (simp add: demo_polling_starts)
  have f: "fst (poll_attempts 2 ?env ''job-1'' [0..<max_retries]) = Inr demo_text"
    by (simp add: demo_poll_text)
  have p: "poll_attempts 2 ?env ''job-1'' [0..<max_retries] =
      (Inr demo_text, snd (poll_attempts 2 ?env ''job-1'' [0..<max_retries]))"
    by (rule poll_pair [OF f])
  have c: "status_code empty_reply = 200" and j: "resp_json empty_reply = Inr (PList [])"
    by (simp_all add: empty_reply_def)
  have r: "requests_post ?env api_url (prompt_of ?env (PStr ''Why?'') demo_text) = Inr empty_reply"
    by simp
  have b: "fst (inference_body ?env (pdf_key_of ?env) (PStr ''Why?'') demo_text) =
      Raise (Exn IndexError ''list index out of range'')"
    by (rule inference_body_empty_list [OF r c j])
  have n: "exn_class_of (Exn IndexError ''list index out of range'') \<noteq> RequestException"
    by simp
  from inference_failure_labelled [OF s p demo_text_nonempty b] n s f demo_text_nonempty c j b
  show ?thesis by simp
qed

text \<open>
  C10 as it is stated fails for its own example of a 200 answer whose body is not JSON,
  when \<^verbatim>\<open>json()\<close> raises a \<^verbatim>\<open>RequestException\<close> as current versions of
  \<^verbatim>\<open>requests\<close> do: the response is labelled as an error of the inference call.
\<close>

theorem inference_failure_counterexample:
  "status_code unparseable_reply = 200 \<and>
   resp_json unparseable_reply =
     Inl (Exn RequestException ''Expecting value: line 1 column 1 (char 0)'') \<and>
   fst (lambda_handler 2
          ((demo_env ocr_two_pages)\<lparr>requests_post := (\<lambda>url prompt. Inr unparseable_reply)\<rparr>)
          demo_event) =
     Some (create_error_response 500
             ''Error calling Hugging Face API: Expecting value: line 1 column 1 (char 0)'' None) \<and>
   body (create_error_response 500
           ''Error calling Hugging Face API: Expecting value: line 1 column 1 (char 0)'' None) \<noteq>
   body (create_error_response 500
           ''Textract processing error: Expecting value: line 1 column 1 (char 0)'' None)"
proof -
  let ?env = "(demo_env ocr_two_pages)\<lparr>requests_post := (\<lambda>url prompt. Inr unparseable_reply)\<rparr>"
  let ?e = "Exn RequestException ''Expecting value: line 1 column 1 (char 0)''"
  have s: "polling_starts ?env demo_event (PStr ''Why?'') ''job-1'' demo_prefix"
    by (simp add: demo_polling_starts)
  have f: "fst (poll_attempts 2 ?env ''job-1'' [0..<max_retries]) = Inr demo_text"
    by (simp add: demo_poll_text)
  have p: "poll_attempts 2 ?env ''job-1'' [0..<max_retries] =
      (Inr demo_text, snd (poll_attempts 2 ?env ''job-1'' [0..<max_retries]))"
    by (rule poll_pair [OF f])
  have c: "status_code unparseable_reply = 200" and j: "resp_json unparseable_reply = Inl ?e"
    by (simp_all add: unparseable_reply_def)
  have r: "requests_post ?env api_url (prompt_of ?env (PStr ''Why?'') demo_text) =
      Inr unparseable_reply"
    by simp
  have b: "fst (inference_body ?env (pdf_key_of ?env) (PStr ''Why?'') demo_text) = Raise ?e"
    by (rule inference_body_json_raises [OF r c j])
  have k: "exn_class_of ?e = RequestException" by simp
  have d: "body (create_error_response 500
           ''Error calling Hugging Face API: Expecting value: line 1 column 1 (char 0)'' None) \<noteq>
      body (create_error_response 500
           ''Textract processing error: Expecting value: line 1 column 1 (char 0)'' None)"
    by code_simp
  from handler_inference_request_exception [OF s p demo_text_nonempty b k] c j d
  show ?thesis by simp
qed

subsection \<open>No exception leaves the handler\<close>

text \<open>
  C8, as amended: the result of the handler is a response or nothing, never an exception.
  It is a response for every event when the pagination of the OCR service ends (no token
  from the \<open>N\<close>-th answer on, and fuel for \<open>N + 2\<close> iterations); and an exception
  that leaves the body of the outer \<^verbatim>\<open>try\<close> is logged and answered with status 500
  and its message.
\<close>

theorem handler_always_responds:
  "(pagination_bounded env N \<and> N + 2 \<le> fuel \<longrightarrow>
      (\<exists>r. fst (lambda_handler fuel env event) = Some r)) \<and>
   (fst (handler_body fuel env event) = Raise e \<longrightarrow>
      lambda_handler fuel env event =
        (Some (create_error_response 500 (''Unexpected error: '' @ exn_str e) None),
         snd (handler_body fuel env event) @
         [Log ERROR (''Unexpected error: '' @ exn_str e)]))"
proof -
  obtain fl tr where b: "handler_body fuel env event = (fl, tr)"
    by (cases "handler_body fuel env event")
  have "\<exists>r. fst (lambda_handler fuel env event) = Some r"
    if "pagination_bounded env N" and "N + 2 \<le> fuel"
    using handler_body_returns [OF that, of event] b
    by (cases fl) (simp_all add: lambda_handler_def)
  moreover have "lambda_handler fuel env event =
        (Some (create_error_response 500 (''Unexpected error: '' @ exn_str e) None),
         snd (handler_body fuel env event) @
         [Log ERROR (''Unexpected error: '' @ exn_str e)])"
    if "fst (handler_body fuel env event) = Raise e"
    using that b by (simp add: lambda_handler_def)
  ultimately show ?thesis by blast
qed

text \<open>The run on two pages, and a request whose body is a JSON list.\<close>

theorem handler_always_responds_witness:
  "pagination_bounded (demo_env ocr_two_pages) 3 \<and> (3::nat) + 2 \<le> 5 \<and>
   (\<exists>r. fst (lambda_handler 5 (demo_env ocr_two_pages) demo_event) = Some r) \<and>
   fst (handler_body 5 (demo_env ocr_two_pages) (event_with_body ''[]'')) =
     Raise (no_attribute (PList []) ''get'') \<and>
   lambda_handler 5 (demo_env ocr_two_pages) (event_with_body ''[]'') =
     (Some (create_error_response 500
        (''Unexpected error: '' @ exn_str (no_attribute (PList []) ''get'')) None),
      [Log INFO (''Incoming event: '' @ json_dumps (event_with_body ''[]'')),
       Log ERROR (''Unexpected error: '' @ exn_str (no_attribute (PList []) ''get''))])"
proof -
  have f: "(3::nat) + 2 \<le> 5" by simp
  have r: "fst (handler_body 5 (demo_env ocr_two_pages) (event_with_body ''[]'')) =
      Raise (no_attribute (PList []) ''get'')"
    by (simp add: demo_list_body_raises)
  from handler_always_responds [of "demo_env ocr_two_pages" 3 5 demo_event
      "no_attribute (PList []) ''get''"]
    handler_always_responds [of "demo_env ocr_two_pages" 3 5 "event_with_body ''[]''"
      "no_attribute (PList []) ''get''"]
    demo_bounded f r
  show ?thesis by (simp add: demo_list_body_raises)
qed

text \<open>
  C8 as it is stated fails when the OCR service never stops handing out continuation
  tokens: the loop of lines 84 to 99 has no bound, and the handler returns no response
  however long it runs.
\<close>

theorem handler_responds_counterexample:
  "polling_starts (demo_env ocr_endless) demo_event (PStr ''Why?'') ''job-1'' demo_prefix \<and>
   (\<forall>fuel. fst (lambda_handler fuel (demo_env ocr_endless) demo_event) = None) \<and>
   (\<forall>N. \<not> pagination_bounded (demo_env ocr_endless) N)"
  using demo_polling_starts [of ocr_endless] demo_endless_run demo_endless_unbounded
  by simp

end
